theory Spec2Isabelle
  imports Complex_Main "HOL-Library.Word"
begin

section \<open>Geometry: rectangles, points and the hit test\<close>

text \<open>
  \<open>D2D1_RECT_F\<close> holds four \<open>FLOAT\<close> fields and \<open>D2D1_POINT_2U\<close> two \<open>UINT32\<close> fields.
  Neither declaration is part of the repository (both come from the Direct2D headers).
  A finite \<open>FLOAT\<close> is read as the real number it denotes; not-a-number and infinite
  bounds are outside the model. The field names carry a prefix because \<open>top\<close>, \<open>x\<close> and
  \<open>y\<close> are taken in HOL.
\<close>

record D2D1_RECT_F =
  rect_left :: real
  rect_top :: real
  rect_right :: real
  rect_bottom :: real

record D2D1_POINT_2U =
  point_x :: "32 word"
  point_y :: "32 word"

text \<open>
  A comparison of a \<open>FLOAT\<close> with a \<open>UINT32\<close> converts the integer to \<open>FLOAT\<close> first.
  A \<open>FLOAT\<close> has a significand of 24 bits, so an integer of more than 24 bits keeps its
  24 leading bits and is rounded on the bits it loses: to the nearest representable
  value, and to the one with an even significand when it lies halfway between two (the
  rounding of the platform the program is written for). \<open>excess_bits n\<close> is the number of
  bits lost, \<open>round_half_even n e\<close> the integer \<open>n\<close> rounded on its \<open>e\<close> low bits. Every
  integer up to \<open>2 ^ 24\<close> is converted exactly; \<open>2 ^ 24 + 1\<close> becomes \<open>2 ^ 24\<close>, and
  \<open>2 ^ 32 - 1\<close> becomes \<open>2 ^ 32\<close>.
\<close>

fun excess_bits :: "nat \<Rightarrow> nat" where
  "excess_bits n = (if n < 2 ^ 24 then 0 else Suc (excess_bits (n div 2)))"

declare excess_bits.simps [simp del]

definition round_half_even :: "nat \<Rightarrow> nat \<Rightarrow> nat" where
  "round_half_even n e =
     (let q = n div 2 ^ e; r = n mod 2 ^ e in
      if 2 * r < 2 ^ e then q * 2 ^ e
      else if 2 ^ e < 2 * r then (q + 1) * 2 ^ e
      else if even q then q * 2 ^ e
      else (q + 1) * 2 ^ e)"

definition uint_to_float :: "32 word \<Rightarrow> real" where
  "uint_to_float w = real (round_half_even (unat w) (excess_bits (unat w)))"

definition RectF :: "real \<Rightarrow> real \<Rightarrow> real \<Rightarrow> real \<Rightarrow> D2D1_RECT_F" where
  "RectF l t r b = \<lparr>rect_left = l, rect_top = t, rect_right = r, rect_bottom = b\<rparr>"

definition Point2U :: "32 word \<Rightarrow> 32 word \<Rightarrow> D2D1_POINT_2U" where
  "Point2U px py = \<lparr>point_x = px, point_y = py\<rparr>"

definition PointInRectangle :: "D2D1_RECT_F \<Rightarrow> D2D1_POINT_2U \<Rightarrow> bool" where
  "PointInRectangle rectangle point \<longleftrightarrow>
     rect_top rectangle < uint_to_float (point_y point)
     \<and> rect_bottom rectangle > uint_to_float (point_y point)
     \<and> rect_left rectangle < uint_to_float (point_x point)
     \<and> rect_right rectangle > uint_to_float (point_x point)"

section \<open>Controls\<close>

text \<open>
  \<open>wchar_t\<close> is the 16-bit code unit of the platform the program is written for, a
  \<open>WPARAM\<close> is 64 bits wide, and the \<open>unsigned\<close> key code is 32 bits wide.
\<close>

type_synonym wchar = "16 word"
type_synonym wstring = "wchar list"
type_synonym WPARAM = "64 word"

text \<open>
  A \<open>std::function<void()>\<close> stored in a control is one of the two closures the program
  builds: the empty lambda every control starts with, and the lambda of \<open>UserInterface\<close>,
  which captures the pointers \<open>input\<close> and \<open>output\<close>. A pointer to a control is the
  control's position in the container's vector, which never shrinks or reorders.
\<close>

datatype callback = NoOp | ReverseText nat nat

text \<open>The dynamic class of a control, with the fields the derived class adds.\<close>

datatype control_class = Base | Label wstring | TextBox wstring | Button

record control =
  area :: D2D1_RECT_F
  onHover :: bool
  onClick :: bool
  onFocus :: bool
  clickEvent :: callback
  changeEvent :: callback
  cls :: control_class

section \<open>The observable trace\<close>

text \<open>
  The claims speak of which hooks are invoked, which callbacks fire and in which order
  controls are painted. A ghost trace records exactly that: every entry to a virtual
  member function of a control, every invocation of a stored callback, and every call into the
  renderer. Nothing in the program reads the trace.
\<close>

datatype brush =
  buttonBorderBrush | buttonNormalBrush | buttonHoverBrush | textBoxBorderBrush | textWriteBrush

datatype hook =
    M_Paint
  | M_OnHover D2D1_POINT_2U
  | M_OnClick D2D1_POINT_2U
  | M_OnFocus
  | M_OnKeyDown "32 word"
  | M_OnChar wchar
  | M_LeaveClick
  | M_LeaveHover
  | M_LeaveFocus

datatype effect =
    Call nat hook
  | Fire_clickEvent nat
  | Fire_changeEvent nat
  | DrawTextW D2D1_RECT_F wstring brush
  | DrawRectangle D2D1_RECT_F brush
  | FillRectangle D2D1_RECT_F brush

record container =
  controls :: "control list"
  trace :: "effect list"

definition emit :: "effect \<Rightarrow> container \<Rightarrow> container" where
  "emit e s = s\<lparr>trace := trace s @ [e]\<rparr>"

definition modify :: "nat \<Rightarrow> (control \<Rightarrow> control) \<Rightarrow> container \<Rightarrow> container" where
  "modify i f s = s\<lparr>controls := (controls s)[i := f (controls s ! i)]\<rparr>"

subsection \<open>Accessors\<close>

definition Area :: "control \<Rightarrow> D2D1_RECT_F" where
  "Area c = area c"

definition IsHover :: "control \<Rightarrow> bool" where
  "IsHover c = onHover c"

definition IsClicked :: "control \<Rightarrow> bool" where
  "IsClicked c = onClick c"

definition IsFocused :: "control \<Rightarrow> bool" where
  "IsFocused c = onFocus c"

subsection \<open>Stored callbacks\<close>

text \<open>
  \<open>TextBox::Text\<close> and \<open>Label::Text\<close> are members of the derived classes; the typed
  pointers of the source guarantee the class, which the model checks instead. The lambda
  of \<open>UserInterface\<close> copies the text of \<open>input\<close>, reverses the copy and stores it in
  \<open>output\<close>.
\<close>

definition Label_Text :: "nat \<Rightarrow> wstring \<Rightarrow> container \<Rightarrow> container" where
  "Label_Text i text s =
     (if i < length (controls s) then
        (case cls (controls s ! i) of
           Label _ \<Rightarrow> modify i (\<lambda>c. c\<lparr>cls := Label text\<rparr>) s
         | _ \<Rightarrow> s)
      else s)"

definition invoke :: "callback \<Rightarrow> container \<Rightarrow> container" where
  "invoke f s =
     (case f of
        NoOp \<Rightarrow> s
      | ReverseText input output \<Rightarrow>
          (if input < length (controls s) then
             (case cls (controls s ! input) of
                TextBox text \<Rightarrow> Label_Text output (rev text) s
              | _ \<Rightarrow> s)
           else s))"

definition WhenClick :: "nat \<Rightarrow> callback \<Rightarrow> container \<Rightarrow> container" where
  "WhenClick i f s = modify i (\<lambda>c. c\<lparr>clickEvent := f\<rparr>) s"

definition WhenChange :: "nat \<Rightarrow> callback \<Rightarrow> container \<Rightarrow> container" where
  "WhenChange i f s = modify i (\<lambda>c. c\<lparr>changeEvent := f\<rparr>) s"

subsection \<open>Construction and registration\<close>

definition ControlContainer_init :: container where
  "ControlContainer_init = \<lparr>controls = [], trace = []\<rparr>"

definition Add :: "control \<Rightarrow> container \<Rightarrow> container" where
  "Add c s = s\<lparr>controls := controls s @ [c]\<rparr>"

text \<open>
  The constructor of \<open>Control\<close> stores the area, leaves the three flags false and both
  callbacks the empty lambda, and registers the new object with the container.
\<close>

definition Control_ctor :: "control_class \<Rightarrow> D2D1_RECT_F \<Rightarrow> control" where
  "Control_ctor k a =
     \<lparr>area = a, onHover = False, onClick = False, onFocus = False,
      clickEvent = NoOp, changeEvent = NoOp, cls = k\<rparr>"

definition new_Control :: "D2D1_RECT_F \<Rightarrow> container \<Rightarrow> container" where
  "new_Control a s = Add (Control_ctor Base a) s"

definition new_Label :: "D2D1_RECT_F \<Rightarrow> wstring \<Rightarrow> container \<Rightarrow> container" where
  "new_Label a text s = Add (Control_ctor (Label text) a) s"

definition new_TextBox :: "D2D1_RECT_F \<Rightarrow> container \<Rightarrow> container" where
  "new_TextBox a s = Add (Control_ctor (TextBox []) a) s"

definition new_Button :: "D2D1_RECT_F \<Rightarrow> container \<Rightarrow> container" where
  "new_Button a s = Add (Control_ctor Button a) s"

subsection \<open>The hooks of the base class\<close>

definition Control_OnHover :: "nat \<Rightarrow> D2D1_POINT_2U \<Rightarrow> container \<Rightarrow> container" where
  "Control_OnHover i point s =
     modify i (\<lambda>c. c\<lparr>onHover := True\<rparr>) (emit (Call i (M_OnHover point)) s)"

definition Control_OnClick :: "nat \<Rightarrow> D2D1_POINT_2U \<Rightarrow> container \<Rightarrow> container" where
  "Control_OnClick i click s =
     modify i (\<lambda>c. c\<lparr>onClick := True\<rparr>) (emit (Call i (M_OnClick click)) s)"

definition Control_OnFocus :: "nat \<Rightarrow> container \<Rightarrow> container" where
  "Control_OnFocus i s = modify i (\<lambda>c. c\<lparr>onFocus := True\<rparr>) (emit (Call i M_OnFocus) s)"

definition Control_OnKeyDown :: "nat \<Rightarrow> 32 word \<Rightarrow> container \<Rightarrow> container" where
  "Control_OnKeyDown i key s = emit (Call i (M_OnKeyDown key)) s"

definition Control_OnChar :: "nat \<Rightarrow> wchar \<Rightarrow> container \<Rightarrow> container" where
  "Control_OnChar i ch s = emit (Call i (M_OnChar ch)) s"

definition Control_LeaveClick :: "nat \<Rightarrow> container \<Rightarrow> container" where
  "Control_LeaveClick i s =
     (let s1 = modify i (\<lambda>c. c\<lparr>onClick := False\<rparr>) (emit (Call i M_LeaveClick) s)
      in invoke (clickEvent (controls s1 ! i)) (emit (Fire_clickEvent i) s1))"

definition Control_LeaveHover :: "nat \<Rightarrow> container \<Rightarrow> container" where
  "Control_LeaveHover i s = modify i (\<lambda>c. c\<lparr>onHover := False\<rparr>) (emit (Call i M_LeaveHover) s)"

definition Control_LeaveFocus :: "nat \<Rightarrow> container \<Rightarrow> container" where
  "Control_LeaveFocus i s = modify i (\<lambda>c. c\<lparr>onFocus := False\<rparr>) (emit (Call i M_LeaveFocus) s)"

definition Control_Paint :: "nat \<Rightarrow> container \<Rightarrow> container" where
  "Control_Paint i s = emit (Call i M_Paint) s"

subsection \<open>The overrides of the derived classes\<close>

definition TextWriter_Draw :: "D2D1_RECT_F \<Rightarrow> wstring \<Rightarrow> container \<Rightarrow> container" where
  "TextWriter_Draw a text s = emit (DrawTextW a text textWriteBrush) s"

definition Label_Paint :: "nat \<Rightarrow> wstring \<Rightarrow> container \<Rightarrow> container" where
  "Label_Paint i text s =
     TextWriter_Draw (area (controls s ! i)) text (emit (Call i M_Paint) s)"

definition TextBox_Paint :: "nat \<Rightarrow> wstring \<Rightarrow> container \<Rightarrow> container" where
  "TextBox_Paint i text s =
     (let s1 = emit (Call i M_Paint) s;
          s2 = emit (DrawRectangle (area (controls s1 ! i)) textBoxBorderBrush) s1
      in TextWriter_Draw (area (controls s2 ! i)) text s2)"

definition BACKSPACE_CHAR :: wchar where
  "BACKSPACE_CHAR = 8"

definition VK_BACK :: "32 word" where
  "VK_BACK = 8"

definition TextBox_OnChar :: "nat \<Rightarrow> wstring \<Rightarrow> wchar \<Rightarrow> container \<Rightarrow> container" where
  "TextBox_OnChar i text ch s =
     (let s0 = emit (Call i (M_OnChar ch)) s in
      if ch \<noteq> BACKSPACE_CHAR then
        (let s1 = modify i (\<lambda>c. c\<lparr>cls := TextBox (text @ [ch])\<rparr>) s0
         in invoke (changeEvent (controls s1 ! i)) (emit (Fire_changeEvent i) s1))
      else s0)"

definition TextBox_OnKeyDown :: "nat \<Rightarrow> wstring \<Rightarrow> 32 word \<Rightarrow> container \<Rightarrow> container" where
  "TextBox_OnKeyDown i text key s =
     (let s0 = emit (Call i (M_OnKeyDown key)) s in
      if key = VK_BACK \<and> text \<noteq> [] then
        (let s1 = modify i (\<lambda>c. c\<lparr>cls := TextBox (butlast text)\<rparr>) s0
         in invoke (changeEvent (controls s1 ! i)) (emit (Fire_changeEvent i) s1))
      else s0)"

definition GetBrush :: "control \<Rightarrow> brush" where
  "GetBrush c = (if onHover c then buttonHoverBrush else buttonNormalBrush)"

definition Button_Paint :: "nat \<Rightarrow> container \<Rightarrow> container" where
  "Button_Paint i s =
     (let s1 = emit (Call i M_Paint) s
      in emit (FillRectangle (area (controls s1 ! i)) (GetBrush (controls s1 ! i))) s1)"

subsection \<open>Virtual dispatch on the dynamic class\<close>

definition Paint :: "nat \<Rightarrow> container \<Rightarrow> container" where
  "Paint i s =
     (case cls (controls s ! i) of
        Label text \<Rightarrow> Label_Paint i text s
      | TextBox text \<Rightarrow> TextBox_Paint i text s
      | Button \<Rightarrow> Button_Paint i s
      | Base \<Rightarrow> Control_Paint i s)"

definition OnChar :: "nat \<Rightarrow> wchar \<Rightarrow> container \<Rightarrow> container" where
  "OnChar i ch s =
     (case cls (controls s ! i) of
        TextBox text \<Rightarrow> TextBox_OnChar i text ch s
      | _ \<Rightarrow> Control_OnChar i ch s)"

definition OnKeyDown :: "nat \<Rightarrow> 32 word \<Rightarrow> container \<Rightarrow> container" where
  "OnKeyDown i key s =
     (case cls (controls s ! i) of
        TextBox text \<Rightarrow> TextBox_OnKeyDown i text key s
      | _ \<Rightarrow> Control_OnKeyDown i key s)"

section \<open>The container's dispatch\<close>

text \<open>
  Each handler is a range-based loop over the vector of control pointers. The vector is
  not resized while a handler runs, so the loop visits the indices \<open>0, 1, ...\<close> below the
  length at entry; the state is read again at each index, since an earlier iteration (or
  a callback it fired) may have changed it.
\<close>

definition OnHover_body :: "D2D1_POINT_2U \<Rightarrow> nat \<Rightarrow> container \<Rightarrow> container" where
  "OnHover_body p i s =
     (if PointInRectangle (Area (controls s ! i)) p then
        (if \<not> IsHover (controls s ! i) then Control_OnHover i p s else s)
      else if IsHover (controls s ! i) then Control_LeaveHover i s
      else s)"

definition ControlContainer_OnHover :: "32 word \<Rightarrow> 32 word \<Rightarrow> container \<Rightarrow> container" where
  "ControlContainer_OnHover px py s =
     fold (OnHover_body (Point2U px py)) [0..<length (controls s)] s"

definition OnClick_body :: "D2D1_POINT_2U \<Rightarrow> nat \<Rightarrow> container \<Rightarrow> container" where
  "OnClick_body p i s =
     (if PointInRectangle (Area (controls s ! i)) p then
        Control_OnFocus i (Control_OnClick i p s)
      else if IsFocused (controls s ! i) then Control_LeaveFocus i s
      else s)"

definition ControlContainer_OnClick :: "32 word \<Rightarrow> 32 word \<Rightarrow> container \<Rightarrow> container" where
  "ControlContainer_OnClick px py s =
     fold (OnClick_body (Point2U px py)) [0..<length (controls s)] s"

fun OnChar_loop :: "nat list \<Rightarrow> WPARAM \<Rightarrow> container \<Rightarrow> container" where
  "OnChar_loop [] ch s = s"
| "OnChar_loop (i # rest) ch s =
     (if IsFocused (controls s ! i) then OnChar i (ucast ch) s
      else OnChar_loop rest ch s)"

definition ControlContainer_OnChar :: "WPARAM \<Rightarrow> container \<Rightarrow> container" where
  "ControlContainer_OnChar ch s = OnChar_loop [0..<length (controls s)] ch s"

fun OnKeyDown_loop :: "nat list \<Rightarrow> WPARAM \<Rightarrow> container \<Rightarrow> container" where
  "OnKeyDown_loop [] key s = s"
| "OnKeyDown_loop (i # rest) key s =
     (if IsFocused (controls s ! i) then OnKeyDown i (ucast key) s
      else OnKeyDown_loop rest key s)"

definition ControlContainer_OnKeyDown :: "WPARAM \<Rightarrow> container \<Rightarrow> container" where
  "ControlContainer_OnKeyDown key s = OnKeyDown_loop [0..<length (controls s)] key s"

definition LeaveClick_body :: "nat \<Rightarrow> container \<Rightarrow> container" where
  "LeaveClick_body i s = (if IsClicked (controls s ! i) then Control_LeaveClick i s else s)"

definition ControlContainer_LeaveClick :: "container \<Rightarrow> container" where
  "ControlContainer_LeaveClick s = fold LeaveClick_body [0..<length (controls s)] s"

definition ControlContainer_Paint :: "container \<Rightarrow> container" where
  "ControlContainer_Paint s = fold Paint [0..<length (controls s)] s"

section \<open>The program: wiring and the window procedure\<close>

definition UserInterface :: "container \<Rightarrow> container" where
  "UserInterface s =
     (let input = length (controls s);
          s1 = new_TextBox (RectF 20 20 150 50) s;
          output = length (controls s1);
          s2 = new_Label (RectF 20 60 150 85) [] s1
      in WhenChange input (ReverseText input output) s2)"

text \<open>
  The messages the window procedure forwards to the container, with the payload the
  container's handler receives: the coordinates as the \<open>unsigned\<close> parameters of the
  handler, the character and the key as the \<open>WPARAM\<close>. On \<open>WM_PAINT\<close> the procedure
  brackets the container's \<open>Paint\<close> with the renderer's begin, clear and end of a frame,
  which touch no control; the other messages it handles never reach the container.
\<close>

datatype message =
    WM_PAINT
  | WM_MOUSEMOVE "32 word" "32 word"
  | WM_LBUTTONDOWN "32 word" "32 word"
  | WM_LBUTTONUP
  | WM_CHAR WPARAM
  | WM_KEYDOWN WPARAM

fun WndProc :: "message \<Rightarrow> container \<Rightarrow> container" where
  "WndProc WM_PAINT s = ControlContainer_Paint s"
| "WndProc (WM_MOUSEMOVE px py) s = ControlContainer_OnHover px py s"
| "WndProc (WM_LBUTTONDOWN px py) s = ControlContainer_OnClick px py s"
| "WndProc WM_LBUTTONUP s = ControlContainer_LeaveClick s"
| "WndProc (WM_CHAR ch) s = ControlContainer_OnChar ch s"
| "WndProc (WM_KEYDOWN key) s = ControlContainer_OnKeyDown key s"

text \<open>The message loop: the messages are handled one at a time, in order.\<close>

definition run :: "message list \<Rightarrow> container \<Rightarrow> container" where
  "run ms s = fold WndProc ms s"

section \<open>Vocabulary for stating the properties\<close>

text \<open>
  The definitions of this section are not part of the program. They name what the
  properties below speak about: the part of the trace an operation appended, the hook
  calls and paint calls in a piece of trace, the number of focused controls, and
  callbacks that leave every control as it is.
\<close>

text \<open>
  \<open>since s s'\<close> is what was appended to the trace between \<open>s\<close> and a later state \<open>s'\<close>.
\<close>

definition since :: "container \<Rightarrow> container \<Rightarrow> effect list" where
  "since s s' = drop (length (trace s)) (trace s')"

definition hook_calls :: "effect list \<Rightarrow> effect list" where
  "hook_calls es = filter (\<lambda>e. case e of Call _ _ \<Rightarrow> True | _ \<Rightarrow> False) es"

definition painted :: "effect list \<Rightarrow> nat list" where
  "painted es = concat (map (\<lambda>e. case e of Call i M_Paint \<Rightarrow> [i] | _ \<Rightarrow> []) es)"

text \<open>
  What painting the control at position \<open>i\<close> appends to the trace, as a function of the
  control alone.
\<close>

definition paint_effects :: "nat \<Rightarrow> control \<Rightarrow> effect list" where
  "paint_effects i c =
     (case cls c of
        Base \<Rightarrow> [Call i M_Paint]
      | Label text \<Rightarrow> [Call i M_Paint, DrawTextW (area c) text textWriteBrush]
      | TextBox text \<Rightarrow>
          [Call i M_Paint, DrawRectangle (area c) textBoxBorderBrush,
           DrawTextW (area c) text textWriteBrush]
      | Button \<Rightarrow> [Call i M_Paint, FillRectangle (area c) (GetBrush c)])"

definition focused_count :: "container \<Rightarrow> nat" where
  "focused_count s = length (filter IsFocused (controls s))"

text \<open>
  No point lies strictly inside two rectangles of the list.
\<close>

fun no_overlap :: "D2D1_RECT_F list \<Rightarrow> bool" where
  "no_overlap [] \<longleftrightarrow> True"
| "no_overlap (r # rs) \<longleftrightarrow>
     (\<forall>q\<in>set rs. \<forall>p. \<not> (PointInRectangle r p \<and> PointInRectangle q p)) \<and> no_overlap rs"

text \<open>
  A callback is inert when invoking it changes no control, whatever the state.
\<close>

definition inert :: "callback \<Rightarrow> bool" where
  "inert f \<longleftrightarrow> (\<forall>s. controls (invoke f s) = controls s)"

text \<open>
  The bounds and the three interaction flags of a control.
\<close>

definition flags :: "control \<Rightarrow> D2D1_RECT_F \<times> bool \<times> bool \<times> bool" where
  "flags c = (Area c, IsHover c, IsClicked c, IsFocused c)"

text \<open>
  The wiring \<open>UserInterface\<close> sets up, with the relation between the two texts that the
  change callback maintains.
\<close>

definition ui_inv :: "container \<Rightarrow> bool" where
  "ui_inv s \<longleftrightarrow>
     map clickEvent (controls s) = [NoOp, NoOp]
     \<and> map changeEvent (controls s) = [ReverseText 0 1, NoOp]
     \<and> (\<exists>t. map cls (controls s) = [TextBox t, Label (rev t)])"

section \<open>Scenarios\<close>

text \<open>
  Concrete registries and message sequences: the program's own user interface, and small
  registries on which single operations are evaluated.
\<close>

text \<open>
  A wide string literal \<open>L"..."\<close> of ASCII characters.
\<close>

definition L :: "string \<Rightarrow> wstring" where
  "L str = map of_char str"

text \<open>
  The registry after \<open>UserInterface\<close> has run on the empty container: the text box at
  position 0, the label at position 1.
\<close>

definition ui :: container where
  "ui = UserInterface ControlContainer_init"

text \<open>
  A click inside the text box, then the characters c, a, t.
\<close>

definition type_cat :: "message list" where
  "type_cat = [WM_LBUTTONDOWN 30 30, WM_LBUTTONUP,
     WM_CHAR (of_char CHR ''c''), WM_CHAR (of_char CHR ''a''), WM_CHAR (of_char CHR ''t'')]"

text \<open>
  One press of the backspace key, as the message loop delivers it after
  \<open>TranslateMessage\<close>: the key-down, then the character.
\<close>

definition backspace :: "message list" where
  "backspace = [WM_KEYDOWN 8, WM_CHAR 8]"

text \<open>
  The user interface after a click inside the text box, which is then focused.
\<close>

definition stale_focus :: container where
  "stale_focus = ControlContainer_OnClick 30 30 ui"

definition one_button :: container where
  "one_button = new_Button (RectF 0 0 10 10) ControlContainer_init"

definition pressed_button :: container where
  "pressed_button = ControlContainer_OnClick 5 5 one_button"

definition overlapping_buttons :: container where
  "overlapping_buttons =
     new_Button (RectF 0 0 10 10) (new_Button (RectF 0 0 10 10) ControlContainer_init)"

definition lone_textbox :: container where
  "lone_textbox = new_TextBox (RectF 20 20 150 50) ControlContainer_init"

definition focused_textbox :: container where
  "focused_textbox = ControlContainer_OnClick 30 30 lone_textbox"

section \<open>Basic facts about the model\<close>

subsection \<open>The conversion of a coordinate\<close>

lemma excess_bits_small: "n < 2 ^ 24 \<Longrightarrow> excess_bits n = 0"
  by (simp add: excess_bits.simps)

lemma round_half_even_0: "round_half_even n 0 = n"
  by (simp add: round_half_even_def)

lemma uint_to_float_exact:
  assumes "unat w \<le> 2 ^ 24"
  shows "uint_to_float w = real (unat w)"
proof (cases "unat w < 2 ^ 24")
  case True
  then show ?thesis by (simp add: uint_to_float_def excess_bits_small round_half_even_0)
next
  case False
  with assms have e: "unat w = 2 ^ 24" by simp
  have "excess_bits (2 ^ 24) = Suc 0"
    by (subst excess_bits.simps) (simp add: excess_bits_small)
  then show ?thesis
    by (simp add: uint_to_float_def e round_half_even_def)
qed

subsection \<open>Trace and store\<close>

lemma controls_emit [simp]: "controls (emit e s) = controls s"
  by (simp add: emit_def)

lemma trace_emit [simp]: "trace (emit e s) = trace s @ [e]"
  by (simp add: emit_def)

lemma controls_modify [simp]:
  "controls (modify i f s) = (controls s)[i := f (controls s ! i)]"
  by (simp add: modify_def)

lemma trace_modify [simp]: "trace (modify i f s) = trace s"
  by (simp add: modify_def)

lemma map_update_same:
  assumes "\<And>c. g (h c) = g c"
  shows "map g (xs[i := h (xs ! i)]) = map g xs"
proof (cases "i < length xs")
  case True
  then show ?thesis by (simp add: map_update assms list_update_same_conv)
next
  case False
  then have "length xs \<le> i" by simp
  then show ?thesis by (simp only: list_update_beyond)
qed

lemma trace_Label_Text [simp]: "trace (Label_Text i t s) = trace s"
  by (simp add: Label_Text_def split: control_class.splits)

lemma trace_invoke [simp]: "trace (invoke f s) = trace s"
  by (simp add: invoke_def split: callback.splits control_class.splits)

lemma map_Label_Text:
  assumes "\<And>c k. g (c\<lparr>cls := k\<rparr>) = g c"
  shows "map g (controls (Label_Text i t s)) = map g (controls s)"
  by (simp add: Label_Text_def map_update_same assms split: control_class.splits)

lemma map_invoke:
  assumes "\<And>c k. g (c\<lparr>cls := k\<rparr>) = g c"
  shows "map g (controls (invoke f s)) = map g (controls s)"
  by (simp add: invoke_def map_Label_Text assms split: callback.splits control_class.splits)

lemma length_invoke [simp]: "length (controls (invoke f s)) = length (controls s)"
  using map_invoke [of "\<lambda>_. ()" f s] by (metis length_map)

lemma nth_invoke:
  assumes "\<And>c k. g (c\<lparr>cls := k\<rparr>) = g c" and "j < length (controls s)"
  shows "g (controls (invoke f s) ! j) = g (controls s ! j)"
proof -
  have "map g (controls (invoke f s)) ! j = map g (controls s) ! j"
    by (simp add: map_invoke assms(1))
  then show ?thesis using assms(2) by simp
qed

lemma container_eqI:
  "controls s = controls s' \<Longrightarrow> trace s = trace s' \<Longrightarrow> s = (s' :: container)"
  by simp

text \<open>
  A loop whose body touches only the visited control, and appends to the trace something
  that depends only on that control, has a closed form.
\<close>

lemma fold_pointwise:
  assumes body: "\<And>i s. i < length (controls s) \<Longrightarrow>
      body i s = \<lparr>controls = (controls s)[i := F (controls s ! i)],
                  trace = trace s @ G i (controls s ! i)\<rparr>"
    and n: "n \<le> length (controls s)"
  shows "fold body [0..<n] s =
     \<lparr>controls = map F (take n (controls s)) @ drop n (controls s),
      trace = trace s @ concat (map (\<lambda>i. G i (controls s ! i)) [0..<n])\<rparr>"
  using n
proof (induction n)
  case 0
  then show ?case by simp
next
  case (Suc n)
  let ?cs = "controls s"
  let ?mid = "\<lparr>controls = map F (take n ?cs) @ drop n ?cs,
      trace = trace s @ concat (map (\<lambda>i. G i (?cs ! i)) [0..<n])\<rparr>"
  from Suc have n: "n < length ?cs" by simp
  have mid: "fold body [0..<n] s = ?mid" using Suc by simp
  have at: "(map F (take n ?cs) @ drop n ?cs) ! n = ?cs ! n"
    using n by (simp add: nth_append)
  have upd: "(map F (take n ?cs) @ drop n ?cs)[n := F (?cs ! n)]
      = map F (take (Suc n) ?cs) @ drop (Suc n) ?cs"
    using n by (simp add: list_update_append take_Suc_conv_app_nth
        Cons_nth_drop_Suc [symmetric])
  have "fold body [0..<Suc n] s = body n ?mid" by (simp add: mid)
  also have "\<dots> = \<lparr>controls = (controls ?mid)[n := F (controls ?mid ! n)],
                  trace = trace ?mid @ G n (controls ?mid ! n)\<rparr>"
    by (rule body) (use n in simp)
  finally show ?case by (simp add: at upd)
qed

lemma fold_pointwise_all:
  assumes body: "\<And>i s. i < length (controls s) \<Longrightarrow>
      body i s = \<lparr>controls = (controls s)[i := F (controls s ! i)],
                  trace = trace s @ G i (controls s ! i)\<rparr>"
  shows "fold body [0..<length (controls s)] s =
     \<lparr>controls = map F (controls s),
      trace = trace s @ concat (map (\<lambda>i. G i (controls s ! i)) [0..<length (controls s)])\<rparr>"
  using fold_pointwise [of body F G "length (controls s)" s, OF body] by simp

lemma set_flag_same:
  "onHover c = b \<Longrightarrow> c\<lparr>onHover := b\<rparr> = c"
  "onFocus c = b \<Longrightarrow> c\<lparr>onFocus := b\<rparr> = c"
  "onClick c = b \<Longrightarrow> c\<lparr>onClick := b\<rparr> = c"
  by (cases c; simp)+

subsection \<open>Closed forms of the loops\<close>

lemma OnHover_body_pointwise:
  "OnHover_body p i s =
     \<lparr>controls = (controls s)[i := (controls s ! i)\<lparr>onHover := PointInRectangle (area (controls s ! i)) p\<rparr>],
      trace = trace s @
        (if PointInRectangle (area (controls s ! i)) p
         then (if onHover (controls s ! i) then [] else [Call i (M_OnHover p)])
         else (if onHover (controls s ! i) then [Call i M_LeaveHover] else []))\<rparr>"
  by (rule container_eqI)
    (simp_all add: OnHover_body_def Control_OnHover_def Control_LeaveHover_def
      Area_def IsHover_def set_flag_same)

lemma ControlContainer_OnHover_closed:
  "ControlContainer_OnHover px py s =
     \<lparr>controls = map (\<lambda>c. c\<lparr>onHover := PointInRectangle (area c) (Point2U px py)\<rparr>) (controls s),
      trace = trace s @ concat (map (\<lambda>i.
        if PointInRectangle (area (controls s ! i)) (Point2U px py)
        then (if onHover (controls s ! i) then [] else [Call i (M_OnHover (Point2U px py))])
        else (if onHover (controls s ! i) then [Call i M_LeaveHover] else []))
        [0..<length (controls s)])\<rparr>"
  unfolding ControlContainer_OnHover_def
  by (rule fold_pointwise_all) (rule OnHover_body_pointwise)

lemma OnClick_body_pointwise:
  "i < length (controls s) \<Longrightarrow> OnClick_body p i s =
     \<lparr>controls = (controls s)[i := (controls s ! i)
         \<lparr>onClick := PointInRectangle (area (controls s ! i)) p \<or> onClick (controls s ! i),
          onFocus := PointInRectangle (area (controls s ! i)) p\<rparr>],
      trace = trace s @
        (if PointInRectangle (area (controls s ! i)) p
         then [Call i (M_OnClick p), Call i M_OnFocus]
         else (if onFocus (controls s ! i) then [Call i M_LeaveFocus] else []))\<rparr>"
  by (intro container_eqI)
    (simp_all add: OnClick_body_def Control_OnClick_def Control_OnFocus_def
      Control_LeaveFocus_def Area_def IsFocused_def set_flag_same)

lemma ControlContainer_OnClick_closed:
  "ControlContainer_OnClick px py s =
     \<lparr>controls = map (\<lambda>c. c\<lparr>onClick := PointInRectangle (area c) (Point2U px py) \<or> onClick c,
                              onFocus := PointInRectangle (area c) (Point2U px py)\<rparr>) (controls s),
      trace = trace s @ concat (map (\<lambda>i.
        if PointInRectangle (area (controls s ! i)) (Point2U px py)
        then [Call i (M_OnClick (Point2U px py)), Call i M_OnFocus]
        else (if onFocus (controls s ! i) then [Call i M_LeaveFocus] else []))
        [0..<length (controls s)])\<rparr>"
  unfolding ControlContainer_OnClick_def
  by (rule fold_pointwise_all) (rule OnClick_body_pointwise)

lemma Paint_pointwise:
  "Paint i s =
     \<lparr>controls = (controls s)[i := id (controls s ! i)],
      trace = trace s @ paint_effects i (controls s ! i)\<rparr>"
  by (rule container_eqI)
    (simp_all add: Paint_def Control_Paint_def Label_Paint_def TextBox_Paint_def
      Button_Paint_def TextWriter_Draw_def paint_effects_def Let_def
      split: control_class.splits)

lemma ControlContainer_Paint_closed:
  "ControlContainer_Paint s =
     \<lparr>controls = controls s,
      trace = trace s @ concat (map (\<lambda>i. paint_effects i (controls s ! i))
        [0..<length (controls s)])\<rparr>"
  unfolding ControlContainer_Paint_def
  using fold_pointwise_all [of Paint id paint_effects s, OF Paint_pointwise] by simp

lemma OnChar_loop_find:
  "OnChar_loop js ch s =
     (case find (\<lambda>i. IsFocused (controls s ! i)) js of
        None \<Rightarrow> s
      | Some i \<Rightarrow> OnChar i (ucast ch) s)"
  by (induction js) simp_all

lemma OnKeyDown_loop_find:
  "OnKeyDown_loop js key s =
     (case find (\<lambda>i. IsFocused (controls s ! i)) js of
        None \<Rightarrow> s
      | Some i \<Rightarrow> OnKeyDown i (ucast key) s)"
  by (induction js) simp_all

lemma find_first_index:
  assumes "i < n" "P i" "\<forall>j<i. \<not> P j"
  shows "find P [0..<n] = Some i"
  using assms by (auto simp: find_Some_iff intro!: exI [of _ i])

lemma find_no_index:
  assumes "\<forall>j<n. \<not> P j"
  shows "find P [0..<n] = None"
  using assms by (simp add: find_None_iff)

lemma painted_append: "painted (xs @ ys) = painted xs @ painted ys"
  by (simp add: painted_def)

lemma painted_paint_effects: "painted (paint_effects i c) = [i]"
  by (simp add: painted_def paint_effects_def split: control_class.splits)

lemma painted_Nil: "painted [] = []"
  by (simp add: painted_def)

lemma painted_concat:
  "painted (concat (map (\<lambda>i. paint_effects i (f i)) js)) = js"
  by (induction js) (simp_all add: painted_append painted_paint_effects painted_Nil)

lemma controls_fold_Add: "controls (fold Add cs s) = controls s @ cs"
  by (induction cs arbitrary: s) (simp_all add: Add_def)

lemma trace_OnChar:
  "trace (OnChar i ch s) = trace s @ Call i (M_OnChar ch) #
     (case cls (controls s ! i) of
        TextBox text \<Rightarrow> if ch \<noteq> BACKSPACE_CHAR then [Fire_changeEvent i] else []
      | _ \<Rightarrow> [])"
  by (simp add: OnChar_def TextBox_OnChar_def Control_OnChar_def Let_def
      split: control_class.splits)

lemma trace_OnKeyDown:
  "trace (OnKeyDown i key s) = trace s @ Call i (M_OnKeyDown key) #
     (case cls (controls s ! i) of
        TextBox text \<Rightarrow> if key = VK_BACK \<and> text \<noteq> [] then [Fire_changeEvent i] else []
      | _ \<Rightarrow> [])"
  by (simp add: OnKeyDown_def TextBox_OnKeyDown_def Control_OnKeyDown_def Let_def
      split: control_class.splits)

lemma hook_calls_OnChar:
  "hook_calls (since s (OnChar i ch s)) = [Call i (M_OnChar ch)]"
  by (simp add: since_def trace_OnChar hook_calls_def split: control_class.splits)

lemma hook_calls_OnKeyDown:
  "hook_calls (since s (OnKeyDown i key s)) = [Call i (M_OnKeyDown key)]"
  by (simp add: since_def trace_OnKeyDown hook_calls_def split: control_class.splits)

lemma cls_Label_Text_TextBox:
  "cls (controls s ! i) = TextBox t \<Longrightarrow> cls (controls (Label_Text j u s) ! i) = TextBox t"
  by (cases "i = j") (auto simp: Label_Text_def split: control_class.splits)

lemma cls_invoke_TextBox:
  "cls (controls s ! i) = TextBox t \<Longrightarrow> cls (controls (invoke f s) ! i) = TextBox t"
  by (simp add: invoke_def cls_Label_Text_TextBox split: callback.splits control_class.splits)

subsection \<open>The scenarios, evaluated\<close>

lemma ui_controls:
  "controls ui =
    [\<lparr>area = RectF 20 20 150 50, onHover = False, onClick = False, onFocus = False,
      clickEvent = NoOp, changeEvent = ReverseText 0 1, cls = TextBox []\<rparr>,
     \<lparr>area = RectF 20 60 150 85, onHover = False, onClick = False, onFocus = False,
      clickEvent = NoOp, changeEvent = NoOp, cls = Label []\<rparr>]"
  by (simp add: ui_def UserInterface_def ControlContainer_init_def new_TextBox_def new_Label_def
      Add_def Control_ctor_def WhenChange_def Let_def)

subsection \<open>Pointer-up\<close>

lemma trace_Control_LeaveClick:
  "trace (Control_LeaveClick i s) = trace s @ [Call i M_LeaveClick, Fire_clickEvent i]"
  by (simp add: Control_LeaveClick_def Let_def)

lemma map_Control_LeaveClick:
  assumes "\<And>c k. g (c\<lparr>cls := k\<rparr>) = g c" and "\<And>c b. g (c\<lparr>onClick := b\<rparr>) = g c"
  shows "map g (controls (Control_LeaveClick i s)) = map g (controls s)"
  by (simp add: Control_LeaveClick_def Let_def map_invoke assms map_update_same)

lemma onClick_Control_LeaveClick:
  "map onClick (controls (Control_LeaveClick i s)) = (map onClick (controls s))[i := False]"
  by (simp add: Control_LeaveClick_def Let_def map_invoke map_update)

lemma trace_LeaveClick_body:
  "trace (LeaveClick_body i s) = trace s @
     (if onClick (controls s ! i) then [Call i M_LeaveClick, Fire_clickEvent i] else [])"
  by (simp add: LeaveClick_body_def IsClicked_def trace_Control_LeaveClick)

lemma map_LeaveClick_body:
  assumes "\<And>c k. g (c\<lparr>cls := k\<rparr>) = g c" and "\<And>c b. g (c\<lparr>onClick := b\<rparr>) = g c"
  shows "map g (controls (LeaveClick_body i s)) = map g (controls s)"
  by (simp add: LeaveClick_body_def map_Control_LeaveClick assms)

lemma length_LeaveClick_body [simp]:
  "length (controls (LeaveClick_body i s)) = length (controls s)"
  using map_LeaveClick_body [of "\<lambda>_. ()" i s] by (metis length_map)

lemma onClick_LeaveClick_body:
  "i < length (controls s) \<Longrightarrow>
   map onClick (controls (LeaveClick_body i s)) = (map onClick (controls s))[i := False]"
proof (cases "onClick (controls s ! i)")
  case True
  then show ?thesis
    by (simp add: LeaveClick_body_def IsClicked_def onClick_Control_LeaveClick)
next
  case False
  assume i: "i < length (controls s)"
  with False have "map onClick (controls s) ! i = False" by simp
  then have "(map onClick (controls s))[i := False] = map onClick (controls s)"
    by (metis list_update_id)
  with False show ?thesis by (simp add: LeaveClick_body_def IsClicked_def)
qed

lemma map_fold_LeaveClick:
  assumes "\<And>c k. g (c\<lparr>cls := k\<rparr>) = g c" and "\<And>c b. g (c\<lparr>onClick := b\<rparr>) = g c"
  shows "map g (controls (fold LeaveClick_body js s)) = map g (controls s)"
  by (induction js arbitrary: s) (simp_all add: map_LeaveClick_body assms)

lemma length_fold_LeaveClick [simp]:
  "length (controls (fold LeaveClick_body js s)) = length (controls s)"
  using map_fold_LeaveClick [of "\<lambda>_. ()" js s] by (metis length_map)

lemma onClick_fold_LeaveClick:
  assumes "\<forall>i\<in>set js. i < length (controls s)" and "j < length (controls s)"
  shows "onClick (controls (fold LeaveClick_body js s) ! j)
     = (if j \<in> set js then False else onClick (controls s ! j))"
  using assms
proof (induction js arbitrary: s)
  case Nil
  then show ?case by simp
next
  case (Cons i js)
  let ?s1 = "LeaveClick_body i s"
  have i: "i < length (controls s)" using Cons.prems by simp
  have m: "map onClick (controls ?s1) = (map onClick (controls s))[i := False]"
    by (rule onClick_LeaveClick_body [OF i])
  have n: "onClick (controls ?s1 ! j) = (if j = i then False else onClick (controls s ! j))"
  proof -
    have "map onClick (controls ?s1) ! j = (map onClick (controls s))[i := False] ! j"
      by (simp only: m)
    then show ?thesis using Cons.prems(2) i by (simp add: nth_list_update)
  qed
  have "onClick (controls (fold LeaveClick_body js ?s1) ! j)
      = (if j \<in> set js then False else onClick (controls ?s1 ! j))"
    by (rule Cons.IH) (use Cons.prems in simp_all)
  then show ?case using n by auto
qed

lemma trace_fold_LeaveClick:
  assumes "\<forall>i\<in>set js. i < length (controls s)" and "distinct js"
  shows "trace (fold LeaveClick_body js s) = trace s @ concat (map (\<lambda>i.
      if onClick (controls s ! i) then [Call i M_LeaveClick, Fire_clickEvent i] else []) js)"
  using assms
proof (induction js arbitrary: s)
  case Nil
  then show ?case by simp
next
  case (Cons i js)
  let ?s1 = "LeaveClick_body i s"
  let ?g = "\<lambda>s i. if onClick (controls s ! i) then [Call i M_LeaveClick, Fire_clickEvent i] else []"
  have i: "i < length (controls s)" using Cons.prems by simp
  have same: "onClick (controls ?s1 ! k) = onClick (controls s ! k)" if "k \<in> set js" for k
  proof -
    have k: "k < length (controls s)" "k \<noteq> i" using that Cons.prems by auto
    have "map onClick (controls ?s1) ! k = (map onClick (controls s))[i := False] ! k"
      by (simp only: onClick_LeaveClick_body [OF i])
    then show ?thesis using k by simp
  qed
  have "trace (fold LeaveClick_body js ?s1) = trace ?s1 @ concat (map (?g ?s1) js)"
    by (rule Cons.IH) (use Cons.prems in simp_all)
  also have "map (?g ?s1) js = map (?g s) js"
    by (rule map_cong) (simp_all add: same)
  finally show ?case by (simp add: trace_LeaveClick_body)
qed

lemma ControlContainer_LeaveClick_trace:
  "trace (ControlContainer_LeaveClick s) = trace s @ concat (map (\<lambda>i.
      if onClick (controls s ! i) then [Call i M_LeaveClick, Fire_clickEvent i] else [])
      [0..<length (controls s)])"
  unfolding ControlContainer_LeaveClick_def by (rule trace_fold_LeaveClick) simp_all

lemma ControlContainer_LeaveClick_released:
  "map onClick (controls (ControlContainer_LeaveClick s)) = replicate (length (controls s)) False"
  unfolding ControlContainer_LeaveClick_def
  by (rule nth_equalityI) (simp_all add: onClick_fold_LeaveClick)

lemma ControlContainer_LeaveClick_map:
  assumes "\<And>c k. g (c\<lparr>cls := k\<rparr>) = g c" and "\<And>c b. g (c\<lparr>onClick := b\<rparr>) = g c"
  shows "map g (controls (ControlContainer_LeaveClick s)) = map g (controls s)"
  unfolding ControlContainer_LeaveClick_def by (rule map_fold_LeaveClick) (rule assms)+

lemma count_fired:
  "count_list (concat (map (\<lambda>i.
      if P i then [Call i M_LeaveClick, Fire_clickEvent i] else []) [0..<n])) (Fire_clickEvent j)
   = (if j < n \<and> P j then 1 else 0)"
  by (induction n) auto

lemma since_OnClick:
  "since s (ControlContainer_OnClick px py s) = concat (map (\<lambda>i.
        if PointInRectangle (area (controls s ! i)) (Point2U px py)
        then [Call i (M_OnClick (Point2U px py)), Call i M_OnFocus]
        else (if onFocus (controls s ! i) then [Call i M_LeaveFocus] else []))
        [0..<length (controls s)])"
  by (simp add: since_def ControlContainer_OnClick_closed)

lemma no_fire_in_OnClick:
  "count_list (since s (ControlContainer_OnClick px py s)) (Fire_clickEvent k) = 0"
  by (auto simp: count_list_0_iff since_OnClick split: if_splits)

lemma since_trans:
  assumes "trace s1 = trace s @ xs" and "trace s2 = trace s1 @ ys"
  shows "since s s2 = since s s1 @ since s1 s2"
  using assms by (simp add: since_def)

lemma since_click_release:
  "since s (ControlContainer_LeaveClick (ControlContainer_OnClick px py s))
   = since s (ControlContainer_OnClick px py s)
     @ since (ControlContainer_OnClick px py s)
         (ControlContainer_LeaveClick (ControlContainer_OnClick px py s))"
  by (rule since_trans)
    (simp_all add: ControlContainer_LeaveClick_trace ControlContainer_OnClick_closed)

lemma count_since_LeaveClick:
  "count_list (since s (ControlContainer_LeaveClick s)) (Fire_clickEvent j)
     = (if j < length (controls s) \<and> onClick (controls s ! j) then 1 else 0)"
  by (simp only: since_def ControlContainer_LeaveClick_trace append_eq_conv_conj
      drop_all order_refl append_Nil count_fired drop_append diff_self_eq_0 drop_0)

subsection \<open>What each handler leaves alone\<close>

lemma map_OnChar:
  assumes "\<And>c k. g (c\<lparr>cls := k\<rparr>) = g c"
  shows "map g (controls (OnChar i ch s)) = map g (controls s)"
  by (simp add: OnChar_def TextBox_OnChar_def Control_OnChar_def Let_def map_invoke
      map_update_same assms split: control_class.splits)

lemma map_OnKeyDown:
  assumes "\<And>c k. g (c\<lparr>cls := k\<rparr>) = g c"
  shows "map g (controls (OnKeyDown i key s)) = map g (controls s)"
  by (simp add: OnKeyDown_def TextBox_OnKeyDown_def Control_OnKeyDown_def Let_def map_invoke
      map_update_same assms split: control_class.splits)

lemma map_ControlContainer_OnChar:
  assumes "\<And>c k. g (c\<lparr>cls := k\<rparr>) = g c"
  shows "map g (controls (ControlContainer_OnChar ch s)) = map g (controls s)"
  by (simp add: ControlContainer_OnChar_def OnChar_loop_find map_OnChar assms
      split: option.splits)

lemma map_ControlContainer_OnKeyDown:
  assumes "\<And>c k. g (c\<lparr>cls := k\<rparr>) = g c"
  shows "map g (controls (ControlContainer_OnKeyDown key s)) = map g (controls s)"
  by (simp add: ControlContainer_OnKeyDown_def OnKeyDown_loop_find map_OnKeyDown assms
      split: option.splits)

lemma map_ControlContainer_OnHover:
  assumes "\<And>c b. g (c\<lparr>onHover := b\<rparr>) = g c"
  shows "map g (controls (ControlContainer_OnHover px py s)) = map g (controls s)"
  by (simp add: ControlContainer_OnHover_closed comp_def assms)

lemma map_ControlContainer_OnClick:
  assumes "\<And>c b. g (c\<lparr>onClick := b\<rparr>) = g c" and "\<And>c b. g (c\<lparr>onFocus := b\<rparr>) = g c"
  shows "map g (controls (ControlContainer_OnClick px py s)) = map g (controls s)"
  by (simp add: ControlContainer_OnClick_closed comp_def assms)

lemma controls_ControlContainer_Paint [simp]:
  "controls (ControlContainer_Paint s) = controls s"
  by (simp add: ControlContainer_Paint_closed)

lemma map_WndProc:
  assumes "\<And>c k. g (c\<lparr>cls := k\<rparr>) = g c"
    and "\<And>c b. g (c\<lparr>onClick := b\<rparr>) = g c"
    and "\<And>c b. g (c\<lparr>onFocus := b\<rparr>) = g c"
    and "\<And>c b. g (c\<lparr>onHover := b\<rparr>) = g c"
  shows "map g (controls (WndProc m s)) = map g (controls s)"
  by (cases m)
    (simp_all add: map_ControlContainer_OnChar map_ControlContainer_OnKeyDown
      map_ControlContainer_OnHover map_ControlContainer_OnClick
      ControlContainer_LeaveClick_map assms)

subsection \<open>Focus\<close>

lemma focused_count_map:
  "focused_count s = length (filter (\<lambda>b. b) (map onFocus (controls s)))"
proof -
  have "IsFocused = onFocus" by (rule ext) (simp add: IsFocused_def)
  then show ?thesis by (simp add: focused_count_def filter_map comp_def)
qed

lemma focused_count_cong:
  "map onFocus (controls s') = map onFocus (controls s) \<Longrightarrow> focused_count s' = focused_count s"
  by (simp add: focused_count_map)

lemma no_overlap_hit_once:
  "no_overlap rs \<Longrightarrow> length (filter (\<lambda>r. PointInRectangle r p) rs) \<le> 1"
proof (induction rs)
  case Nil
  then show ?case by simp
next
  case (Cons r rs)
  show ?case
  proof (cases "PointInRectangle r p")
    case True
    with Cons.prems have "\<forall>q\<in>set rs. \<not> PointInRectangle q p" by auto
    then have "filter (\<lambda>r. PointInRectangle r p) rs = []" by (simp add: filter_empty_conv)
    with True show ?thesis by simp
  next
    case False
    with Cons show ?thesis by simp
  qed
qed

lemma focus_after_click:
  "map onFocus (controls (ControlContainer_OnClick px py s))
     = map (\<lambda>r. PointInRectangle r (Point2U px py)) (map area (controls s))"
  by (simp add: ControlContainer_OnClick_closed comp_def)

lemma focused_count_after_click:
  assumes "no_overlap (map area (controls s))"
  shows "focused_count (ControlContainer_OnClick px py s) \<le> 1"
proof -
  have "focused_count (ControlContainer_OnClick px py s)
      = length (filter (\<lambda>r. PointInRectangle r (Point2U px py)) (map area (controls s)))"
    by (simp only: focused_count_map focus_after_click) (simp add: filter_map comp_def)
  then show ?thesis using no_overlap_hit_once [OF assms] by simp
qed

lemma focused_count_WndProc:
  assumes "no_overlap (map area (controls s))" and "focused_count s \<le> 1"
  shows "focused_count (WndProc m s) \<le> 1"
proof (cases m)
  case (WM_LBUTTONDOWN px py)
  then show ?thesis using focused_count_after_click [OF assms(1)] by simp
next
  case WM_PAINT
  then show ?thesis using assms(2) by (simp add: focused_count_def)
next
  case (WM_MOUSEMOVE px py)
  have "focused_count (ControlContainer_OnHover px py s) = focused_count s"
    by (rule focused_count_cong) (simp add: map_ControlContainer_OnHover)
  with WM_MOUSEMOVE assms(2) show ?thesis by simp
next
  case WM_LBUTTONUP
  have "focused_count (ControlContainer_LeaveClick s) = focused_count s"
    by (rule focused_count_cong) (simp add: ControlContainer_LeaveClick_map)
  with WM_LBUTTONUP assms(2) show ?thesis by simp
next
  case (WM_CHAR ch)
  have "focused_count (ControlContainer_OnChar ch s) = focused_count s"
    by (rule focused_count_cong) (simp add: map_ControlContainer_OnChar)
  with WM_CHAR assms(2) show ?thesis by simp
next
  case (WM_KEYDOWN key)
  have "focused_count (ControlContainer_OnKeyDown key s) = focused_count s"
    by (rule focused_count_cong) (simp add: map_ControlContainer_OnKeyDown)
  with WM_KEYDOWN assms(2) show ?thesis by simp
qed

lemma focused_count_run:
  assumes "no_overlap (map area (controls s))" and "focused_count s \<le> 1"
  shows "focused_count (run ms s) \<le> 1"
  using assms
proof (induction ms arbitrary: s)
  case Nil
  then show ?case by (simp add: run_def)
next
  case (Cons m ms)
  have "no_overlap (map area (controls (WndProc m s)))"
    using Cons.prems(1) by (simp add: map_WndProc)
  moreover have "focused_count (WndProc m s) \<le> 1"
    by (rule focused_count_WndProc) (rule Cons.prems)+
  ultimately have "focused_count (run ms (WndProc m s)) \<le> 1" by (rule Cons.IH)
  then show ?case by (simp add: run_def)
qed

subsection \<open>Inert callbacks\<close>

lemma inert_NoOp: "inert NoOp"
  by (simp add: inert_def invoke_def)

lemma controls_OnChar_inert:
  assumes "i < length (controls s)" and "inert (changeEvent (controls s ! i))"
  shows "controls (OnChar i ch s) =
     (case cls (controls s ! i) of
        TextBox text \<Rightarrow>
          if ch \<noteq> BACKSPACE_CHAR
          then (controls s)[i := (controls s ! i)\<lparr>cls := TextBox (text @ [ch])\<rparr>]
          else controls s
      | _ \<Rightarrow> controls s)"
  using assms
  by (simp add: OnChar_def TextBox_OnChar_def Control_OnChar_def Let_def inert_def
      split: control_class.splits)

lemma controls_OnKeyDown_inert:
  assumes "i < length (controls s)" and "inert (changeEvent (controls s ! i))"
  shows "controls (OnKeyDown i key s) =
     (case cls (controls s ! i) of
        TextBox text \<Rightarrow>
          if key = VK_BACK \<and> text \<noteq> []
          then (controls s)[i := (controls s ! i)\<lparr>cls := TextBox (butlast text)\<rparr>]
          else controls s
      | _ \<Rightarrow> controls s)"
  using assms
  by (simp add: OnKeyDown_def TextBox_OnKeyDown_def Control_OnKeyDown_def Let_def inert_def
      split: control_class.splits)

lemma controls_Control_LeaveClick_inert:
  assumes "i < length (controls s)" and "inert (clickEvent (controls s ! i))"
  shows "controls (Control_LeaveClick i s) = (controls s)[i := (controls s ! i)\<lparr>onClick := False\<rparr>]"
  using assms by (simp add: Control_LeaveClick_def Let_def inert_def)

lemma cls_LeaveClick_body_inert:
  assumes "i < length (controls s)" and "inert (clickEvent (controls s ! i))"
  shows "map cls (controls (LeaveClick_body i s)) = map cls (controls s)"
  using assms
  by (simp add: LeaveClick_body_def controls_Control_LeaveClick_inert map_update_same)

lemma cls_fold_LeaveClick_inert:
  assumes "\<forall>i\<in>set js. i < length (controls s)"
    and "\<forall>f\<in>set (map clickEvent (controls s)). inert f"
  shows "map cls (controls (fold LeaveClick_body js s)) = map cls (controls s)"
  using assms
proof (induction js arbitrary: s)
  case Nil
  then show ?case by simp
next
  case (Cons i js)
  let ?s1 = "LeaveClick_body i s"
  have i: "i < length (controls s)" using Cons.prems(1) by simp
  then have "clickEvent (controls s ! i) \<in> set (map clickEvent (controls s))" by simp
  with Cons.prems(2) have "inert (clickEvent (controls s ! i))" by blast
  with i have one: "map cls (controls ?s1) = map cls (controls s)"
    by (rule cls_LeaveClick_body_inert)
  have keep: "map clickEvent (controls ?s1) = map clickEvent (controls s)"
    by (simp add: map_LeaveClick_body)
  have "map cls (controls (fold LeaveClick_body js ?s1)) = map cls (controls ?s1)"
    by (rule Cons.IH) (use Cons.prems keep in simp_all)
  with one show ?case by simp
qed

lemma cls_ControlContainer_LeaveClick_inert:
  assumes "\<forall>c\<in>set (controls s). inert (clickEvent c)"
  shows "map cls (controls (ControlContainer_LeaveClick s)) = map cls (controls s)"
  unfolding ControlContainer_LeaveClick_def
  by (rule cls_fold_LeaveClick_inert) (use assms in simp_all)

lemma OnChar_loop_cases:
  "OnChar_loop js ch s = s \<or> (\<exists>i\<in>set js. OnChar_loop js ch s = OnChar i (ucast ch) s)"
  by (induction js) auto

lemma OnKeyDown_loop_cases:
  "OnKeyDown_loop js key s = s \<or> (\<exists>i\<in>set js. OnKeyDown_loop js key s = OnKeyDown i (ucast key) s)"
  by (induction js) auto

subsection \<open>The wiring of the user interface\<close>

lemma ui_inv_ui: "ui_inv ui"
  by (simp add: ui_inv_def ui_controls)

lemma ui_inv_two:
  assumes "ui_inv s"
  obtains c0 c1 t where "controls s = [c0, c1]" "cls c0 = TextBox t" "cls c1 = Label (rev t)"
    "changeEvent c0 = ReverseText 0 1" "changeEvent c1 = NoOp"
    "clickEvent c0 = NoOp" "clickEvent c1 = NoOp"
proof -
  from assms obtain t where t: "map cls (controls s) = [TextBox t, Label (rev t)]"
    by (auto simp: ui_inv_def)
  then have "length (controls s) = 2" by (metis length_map length_Cons list.size(3) numeral_2_eq_2)
  then obtain c0 c1 where c: "controls s = [c0, c1]"
    by (auto simp: length_Suc_conv numeral_2_eq_2)
  show thesis using assms t c by (intro that [of c0 c1 t]) (simp_all add: ui_inv_def)
qed

lemma ui_inv_OnChar:
  assumes "ui_inv s" and "i < length (controls s)"
  shows "ui_inv (OnChar i ch s)"
proof -
  from assms(1) obtain c0 c1 t where c: "controls s = [c0, c1]" "cls c0 = TextBox t"
      "cls c1 = Label (rev t)" "changeEvent c0 = ReverseText 0 1" "changeEvent c1 = NoOp"
      "clickEvent c0 = NoOp" "clickEvent c1 = NoOp"
    by (rule ui_inv_two)
  from assms(2) c(1) have "i = 0 \<or> i = Suc 0" by auto
  then show ?thesis
    using c
    by (auto simp: ui_inv_def OnChar_def TextBox_OnChar_def Control_OnChar_def Let_def
        invoke_def Label_Text_def)
qed

lemma ui_inv_OnKeyDown:
  assumes "ui_inv s" and "i < length (controls s)"
  shows "ui_inv (OnKeyDown i key s)"
proof -
  from assms(1) obtain c0 c1 t where c: "controls s = [c0, c1]" "cls c0 = TextBox t"
      "cls c1 = Label (rev t)" "changeEvent c0 = ReverseText 0 1" "changeEvent c1 = NoOp"
      "clickEvent c0 = NoOp" "clickEvent c1 = NoOp"
    by (rule ui_inv_two)
  from assms(2) c(1) have "i = 0 \<or> i = Suc 0" by auto
  then show ?thesis
    using c
    by (auto simp: ui_inv_def OnKeyDown_def TextBox_OnKeyDown_def Control_OnKeyDown_def Let_def
        invoke_def Label_Text_def)
qed

lemma ui_inv_WndProc:
  assumes "ui_inv s"
  shows "ui_inv (WndProc m s)"
proof -
  have cb: "map clickEvent (controls (WndProc m s)) = map clickEvent (controls s)"
    "map changeEvent (controls (WndProc m s)) = map changeEvent (controls s)"
    by (simp_all add: map_WndProc)
  show ?thesis
  proof (cases m)
    case WM_PAINT
    with assms show ?thesis by (simp add: ui_inv_def)
  next
    case (WM_MOUSEMOVE px py)
    have "map cls (controls (ControlContainer_OnHover px py s)) = map cls (controls s)"
      by (simp add: map_ControlContainer_OnHover)
    with assms cb WM_MOUSEMOVE show ?thesis by (simp add: ui_inv_def)
  next
    case (WM_LBUTTONDOWN px py)
    have "map cls (controls (ControlContainer_OnClick px py s)) = map cls (controls s)"
      by (simp add: map_ControlContainer_OnClick)
    with assms cb WM_LBUTTONDOWN show ?thesis by (simp add: ui_inv_def)
  next
    case WM_LBUTTONUP
    have "\<forall>f\<in>set (map clickEvent (controls s)). inert f"
      using assms by (simp add: ui_inv_def inert_NoOp)
    then have "map cls (controls (ControlContainer_LeaveClick s)) = map cls (controls s)"
      by (intro cls_ControlContainer_LeaveClick_inert) simp
    with assms cb WM_LBUTTONUP show ?thesis by (simp add: ui_inv_def)
  next
    case (WM_CHAR ch)
    show ?thesis
      using OnChar_loop_cases [of "[0..<length (controls s)]" ch s] assms WM_CHAR
      by (auto simp: ControlContainer_OnChar_def ui_inv_OnChar)
  next
    case (WM_KEYDOWN key)
    show ?thesis
      using OnKeyDown_loop_cases [of "[0..<length (controls s)]" key s] assms WM_KEYDOWN
      by (auto simp: ControlContainer_OnKeyDown_def ui_inv_OnKeyDown)
  qed
qed

lemma ui_inv_run: "ui_inv s \<Longrightarrow> ui_inv (run ms s)"
proof (induction ms arbitrary: s)
  case Nil
  then show ?case by (simp add: run_def)
next
  case (Cons m ms)
  from Cons.prems have "ui_inv (WndProc m s)" by (rule ui_inv_WndProc)
  then have "ui_inv (run ms (WndProc m s))" by (rule Cons.IH)
  then show ?case by (simp add: run_def)
qed

lemmas eval_defs =
  run_def ControlContainer_OnClick_closed ControlContainer_LeaveClick_def
  ControlContainer_OnChar_def ControlContainer_OnKeyDown_def
  LeaveClick_body_def Control_LeaveClick_def IsClicked_def IsFocused_def
  OnChar_def OnKeyDown_def TextBox_OnChar_def TextBox_OnKeyDown_def
  Control_OnChar_def Control_OnKeyDown_def invoke_def Label_Text_def Let_def
  modify_def emit_def
  PointInRectangle_def RectF_def Point2U_def uint_to_float_exact
  BACKSPACE_CHAR_def VK_BACK_def L_def

lemma run_type_cat:
  "map cls (controls (run type_cat ui)) = [TextBox (L ''cat''), Label (L ''tac'')]"
  by (simp add: type_cat_def ui_controls eval_defs)

lemma run_type_cat_backspace:
  "map cls (controls (run (type_cat @ backspace) ui)) = [TextBox (L ''ca''), Label (L ''ac'')]"
  by (simp add: type_cat_def backspace_def ui_controls eval_defs)

lemma run_type_cat_keydown:
  "map cls (controls (run (type_cat @ [WM_KEYDOWN 8]) ui)) = [TextBox (L ''ca''), Label (L ''ac'')]"
  by (simp add: type_cat_def ui_controls eval_defs)

lemma length_run_ui: "length (controls (run ms ui)) = 2"
proof -
  have "ui_inv (run ms ui)" by (rule ui_inv_run) (rule ui_inv_ui)
  then have "length (map clickEvent (controls (run ms ui))) = 2"
    by (simp add: ui_inv_def)
  then show ?thesis by simp
qed

lemma pressed_button_eq:
  "pressed_button =
     \<lparr>controls = [(Control_ctor Button (RectF 0 0 10 10))\<lparr>onClick := True, onFocus := True\<rparr>],
      trace = [Call 0 (M_OnClick (Point2U 5 5)), Call 0 M_OnFocus]\<rparr>"
  by (simp add: pressed_button_def one_button_def ControlContainer_OnClick_closed
      new_Button_def Add_def
      Control_ctor_def ControlContainer_init_def PointInRectangle_def RectF_def Point2U_def
      uint_to_float_exact)

lemma one_button_eq:
  "one_button = \<lparr>controls = [Control_ctor Button (RectF 0 0 10 10)], trace = []\<rparr>"
  by (simp add: one_button_def new_Button_def Add_def ControlContainer_init_def)

lemma lone_textbox_eq:
  "lone_textbox = \<lparr>controls = [Control_ctor (TextBox []) (RectF 20 20 150 50)], trace = []\<rparr>"
  by (simp add: lone_textbox_def new_TextBox_def Add_def ControlContainer_init_def)

lemma flags_cls: "flags (c\<lparr>cls := k\<rparr>) = flags c"
  by (simp add: flags_def Area_def IsHover_def IsClicked_def IsFocused_def)

lemma only_focused_textbox_OnChar:
  assumes i: "i < length (controls s)" and inert: "inert (changeEvent (controls s ! i))"
    and j: "controls (OnChar i ch s) ! j \<noteq> controls s ! j"
  shows "j = i \<and> (\<exists>t t'. cls (controls s ! j) = TextBox t
      \<and> controls (OnChar i ch s) ! j = (controls s ! j)\<lparr>cls := TextBox t'\<rparr>)"
proof (cases "cls (controls s ! i)")
  case (TextBox t)
  have ji: "j = i"
  proof (rule ccontr)
    assume "j \<noteq> i"
    then have "controls (OnChar i ch s) ! j = controls s ! j"
      using i inert TextBox by (simp add: controls_OnChar_inert)
    with j show False by simp
  qed
  with i inert TextBox j show ?thesis
    by (auto simp: controls_OnChar_inert split: if_splits)
qed (use assms in \<open>simp_all add: controls_OnChar_inert\<close>)

lemma only_focused_textbox_OnKeyDown:
  assumes i: "i < length (controls s)" and inert: "inert (changeEvent (controls s ! i))"
    and j: "controls (OnKeyDown i key s) ! j \<noteq> controls s ! j"
  shows "j = i \<and> (\<exists>t t'. cls (controls s ! j) = TextBox t
      \<and> controls (OnKeyDown i key s) ! j = (controls s ! j)\<lparr>cls := TextBox t'\<rparr>)"
proof (cases "cls (controls s ! i)")
  case (TextBox t)
  have ji: "j = i"
  proof (rule ccontr)
    assume "j \<noteq> i"
    then have "controls (OnKeyDown i key s) ! j = controls s ! j"
      using i inert TextBox by (simp add: controls_OnKeyDown_inert)
    with j show False by simp
  qed
  with i inert TextBox j show ?thesis
    by (auto simp: controls_OnKeyDown_inert split: if_splits)
qed (use assms in \<open>simp_all add: controls_OnKeyDown_inert\<close>)

lemma first_focused:
  assumes "find (\<lambda>i. IsFocused (controls s ! i)) [0..<n] = Some i"
  shows "i < n \<and> IsFocused (controls s ! i) \<and> (\<forall>k<i. \<not> IsFocused (controls s ! k))"
  using assms by (auto simp: find_Some_iff)

lemma focused_textbox_eq:
  "focused_textbox =
     \<lparr>controls = [(Control_ctor (TextBox []) (RectF 20 20 150 50))\<lparr>onClick := True, onFocus := True\<rparr>],
      trace = [Call 0 (M_OnClick (Point2U 30 30)), Call 0 M_OnFocus]\<rparr>"
  by (simp add: focused_textbox_def lone_textbox_eq ControlContainer_OnClick_closed
      Control_ctor_def PointInRectangle_def RectF_def Point2U_def uint_to_float_exact)

lemma focused_textbox_typed:
  "controls (ControlContainer_OnChar 97 focused_textbox) =
     [(Control_ctor (TextBox [97]) (RectF 20 20 150 50))\<lparr>onClick := True, onFocus := True\<rparr>]"
  by (simp add: focused_textbox_eq Control_ctor_def eval_defs)

section \<open>The claims\<close>

subsection \<open>The label shows the reversed text\<close>

text \<open>
  C1. In the registry \<open>UserInterface\<close> builds, after any sequence of messages the label's
  text is the reverse of the text box's text. Clicking into the empty text box and typing
  c, a, t leaves the text box holding "cat" and the label showing "tac"; one subsequent
  backspace leaves the text box holding "ca" and the label showing "ac".
\<close>

theorem C1_label_is_reversed_textbox:
  "(\<exists>t. cls (controls (run ms ui) ! 0) = TextBox t \<and> cls (controls (run ms ui) ! 1) = Label (rev t))
   \<and> cls (controls (run type_cat ui) ! 0) = TextBox (L ''cat'')
   \<and> cls (controls (run type_cat ui) ! 1) = Label (L ''tac'')
   \<and> cls (controls (run (type_cat @ [WM_KEYDOWN 8]) ui) ! 0) = TextBox (L ''ca'')
   \<and> cls (controls (run (type_cat @ [WM_KEYDOWN 8]) ui) ! 1) = Label (L ''ac'')
   \<and> cls (controls (run (type_cat @ backspace) ui) ! 1) = Label (L ''ac'')"
proof (intro conjI)
  have "ui_inv (run ms ui)" by (rule ui_inv_run) (rule ui_inv_ui)
  then obtain c0 c1 t where "controls (run ms ui) = [c0, c1]" "cls c0 = TextBox t"
      "cls c1 = Label (rev t)"
    by (rule ui_inv_two)
  then show "\<exists>t. cls (controls (run ms ui) ! 0) = TextBox t
      \<and> cls (controls (run ms ui) ! 1) = Label (rev t)"
    by simp
  have nth: "cls (controls (run ms' ui) ! j) = map cls (controls (run ms' ui)) ! j"
    if "j < 2" for ms' j
    using that by (simp add: length_run_ui)
  show "cls (controls (run type_cat ui) ! 0) = TextBox (L ''cat'')"
    by (simp only: nth run_type_cat) simp
  show "cls (controls (run type_cat ui) ! 1) = Label (L ''tac'')"
    by (simp only: nth run_type_cat) simp
  show "cls (controls (run (type_cat @ [WM_KEYDOWN 8]) ui) ! 0) = TextBox (L ''ca'')"
    by (simp only: nth run_type_cat_keydown) simp
  show "cls (controls (run (type_cat @ [WM_KEYDOWN 8]) ui) ! 1) = Label (L ''ac'')"
    by (simp only: nth run_type_cat_keydown) simp
  show "cls (controls (run (type_cat @ backspace) ui) ! 1) = Label (L ''ac'')"
    by (simp only: nth run_type_cat_backspace) simp
qed

text \<open>
  C1, as the specification words it, has the label show "at" after the backspace. The
  backspace removes the last character typed, so the label does not show "at".
\<close>

theorem C1_backspace_counterexample:
  "cls (controls (run (type_cat @ [WM_KEYDOWN 8]) ui) ! 1) \<noteq> Label (L ''at'')"
proof -
  have "cls (controls (run (type_cat @ [WM_KEYDOWN 8]) ui) ! 1)
      = map cls (controls (run (type_cat @ [WM_KEYDOWN 8]) ui)) ! 1"
    by (simp add: length_run_ui)
  also have "\<dots> = Label (L ''ac'')" by (simp only: run_type_cat_keydown) simp
  finally show ?thesis by (simp add: L_def)
qed

subsection \<open>Focus\<close>

text \<open>
  C2. Starting from a registry in which no control is focused and in which no point lies
  strictly inside the bounds of two controls, after any sequence of messages at most one
  control is focused. In every state, a pointer-down focuses exactly the controls whose
  bounds contain the point and unfocuses every other control, so that after it at most
  one control is focused when the bounds do not overlap.
\<close>

theorem C2_single_focus_without_overlap:
  "(no_overlap (map Area (controls s)) \<and> (\<forall>c\<in>set (controls s). \<not> IsFocused c) \<longrightarrow>
      focused_count (run ms s) \<le> 1)
   \<and> (no_overlap (map Area (controls s)) \<longrightarrow>
      focused_count (ControlContainer_OnClick px py s) \<le> 1)
   \<and> map IsFocused (controls (ControlContainer_OnClick px py s))
       = map (\<lambda>c. PointInRectangle (Area c) (Point2U px py)) (controls s)"
proof (intro conjI impI)
  have a: "Area = area" by (rule ext) (simp add: Area_def)
  {
    assume h: "no_overlap (map Area (controls s)) \<and> (\<forall>c\<in>set (controls s). \<not> IsFocused c)"
    then have "filter IsFocused (controls s) = []"
      by (simp add: filter_empty_conv)
    then have "focused_count s \<le> 1" by (simp add: focused_count_def)
    moreover have "no_overlap (map area (controls s))" using h by (simp only: a)
    ultimately show "focused_count (run ms s) \<le> 1"
      by (intro focused_count_run)
  }
  {
    assume "no_overlap (map Area (controls s))"
    then have "no_overlap (map area (controls s))" by (simp only: a)
    then show "focused_count (ControlContainer_OnClick px py s) \<le> 1"
      by (rule focused_count_after_click)
  }
  have "IsFocused = onFocus" by (rule ext) (simp add: IsFocused_def)
  then show "map IsFocused (controls (ControlContainer_OnClick px py s))
         = map (\<lambda>c. PointInRectangle (Area c) (Point2U px py)) (controls s)"
    by (simp add: focus_after_click a comp_def)
qed

text \<open>
  The controls of \<open>UserInterface\<close> do not overlap; with the text box focused, a
  pointer-down outside both controls unfocuses it, and one inside the label moves the
  focus.
\<close>

theorem C2_single_focus_without_overlap_witness:
  "focused_count (run [WM_LBUTTONDOWN 30 30, WM_LBUTTONUP, WM_CHAR 99, WM_LBUTTONDOWN 30 70] ui) \<le> 1
   \<and> map IsFocused (controls (ControlContainer_OnClick 30 30 ui)) = [True, False]
   \<and> map IsFocused (controls stale_focus) = [True, False]
   \<and> map IsFocused (controls (ControlContainer_OnClick 300 300 stale_focus)) = [False, False]
   \<and> focused_count (ControlContainer_OnClick 30 70 stale_focus) \<le> 1"
proof -
  have o: "no_overlap (map Area (controls ui))"
    by (simp add: ui_controls Area_def PointInRectangle_def RectF_def)
  have f: "\<forall>c\<in>set (controls ui). \<not> IsFocused c"
    by (simp add: ui_controls IsFocused_def)
  have st: "controls stale_focus =
     [\<lparr>area = RectF 20 20 150 50, onHover = False, onClick = True, onFocus = True,
       clickEvent = NoOp, changeEvent = ReverseText 0 1, cls = TextBox []\<rparr>,
      \<lparr>area = RectF 20 60 150 85, onHover = False, onClick = False, onFocus = False,
       clickEvent = NoOp, changeEvent = NoOp, cls = Label []\<rparr>]"
    by (simp add: stale_focus_def ControlContainer_OnClick_closed ui_controls
        PointInRectangle_def RectF_def Point2U_def uint_to_float_exact)
  have o2: "no_overlap (map Area (controls stale_focus))"
    by (simp add: st Area_def PointInRectangle_def RectF_def)
  show ?thesis
    using o f o2
      C2_single_focus_without_overlap [where s = ui
        and ms = "[WM_LBUTTONDOWN 30 30, WM_LBUTTONUP, WM_CHAR 99, WM_LBUTTONDOWN 30 70]"
        and px = 30 and py = 30]
      C2_single_focus_without_overlap [where s = stale_focus and px = 300 and py = 300]
      C2_single_focus_without_overlap [where s = stale_focus and px = 30 and py = 70]
    by (simp add: ui_controls st Area_def IsFocused_def PointInRectangle_def RectF_def Point2U_def
        uint_to_float_exact)
qed

text \<open>
  C2, without the condition on the bounds, fails: one pointer-down inside two buttons with
  the same bounds focuses both.
\<close>

theorem C2_two_focused_counterexample:
  "\<not> focused_count (run [WM_LBUTTONDOWN 5 5] overlapping_buttons) \<le> 1"
  by (simp add: run_def focused_count_map focus_after_click overlapping_buttons_def
      new_Button_def Add_def Control_ctor_def ControlContainer_init_def
      PointInRectangle_def Point2U_def RectF_def uint_to_float_exact)

subsection \<open>The hit test\<close>




subsection \<open>Editing a text box\<close>

text \<open>
  C4. For a text box holding any text: a character other than backspace is appended and
  the change callback fires once; the backspace key on a non-empty text removes the last
  character and the change callback fires once; the backspace key on the empty text, and
  a backspace arriving as a character, change no control and fire no callback.
\<close>

theorem C4_textbox_edits:
  assumes "i < length (controls s)" and "cls (controls s ! i) = TextBox text"
  shows "(ch \<noteq> BACKSPACE_CHAR \<longrightarrow>
            cls (controls (OnChar i ch s) ! i) = TextBox (text @ [ch])
          \<and> since s (OnChar i ch s) = [Call i (M_OnChar ch), Fire_changeEvent i])
       \<and> (text \<noteq> [] \<longrightarrow>
            cls (controls (OnKeyDown i VK_BACK s) ! i) = TextBox (butlast text)
          \<and> since s (OnKeyDown i VK_BACK s) = [Call i (M_OnKeyDown VK_BACK), Fire_changeEvent i])
       \<and> (text = [] \<longrightarrow>
            controls (OnKeyDown i VK_BACK s) = controls s
          \<and> since s (OnKeyDown i VK_BACK s) = [Call i (M_OnKeyDown VK_BACK)])
       \<and> controls (OnChar i BACKSPACE_CHAR s) = controls s
       \<and> since s (OnChar i BACKSPACE_CHAR s) = [Call i (M_OnChar BACKSPACE_CHAR)]"
proof (intro conjI impI)
  assume ch: "ch \<noteq> BACKSPACE_CHAR"
  show "cls (controls (OnChar i ch s) ! i) = TextBox (text @ [ch])"
    using assms ch
    by (simp add: OnChar_def TextBox_OnChar_def Let_def cls_invoke_TextBox)
  show "since s (OnChar i ch s) = [Call i (M_OnChar ch), Fire_changeEvent i]"
    using assms ch by (simp add: since_def trace_OnChar)
next
  assume ne: "text \<noteq> []"
  show "cls (controls (OnKeyDown i VK_BACK s) ! i) = TextBox (butlast text)"
    using assms ne
    by (simp add: OnKeyDown_def TextBox_OnKeyDown_def Let_def cls_invoke_TextBox)
  show "since s (OnKeyDown i VK_BACK s) = [Call i (M_OnKeyDown VK_BACK), Fire_changeEvent i]"
    using assms ne by (simp add: since_def trace_OnKeyDown)
next
  assume e: "text = []"
  show "controls (OnKeyDown i VK_BACK s) = controls s"
    using assms e by (simp add: OnKeyDown_def TextBox_OnKeyDown_def Let_def)
  show "since s (OnKeyDown i VK_BACK s) = [Call i (M_OnKeyDown VK_BACK)]"
    using assms e by (simp add: since_def trace_OnKeyDown)
next
  show "controls (OnChar i BACKSPACE_CHAR s) = controls s"
    using assms by (simp add: OnChar_def TextBox_OnChar_def Let_def)
  show "since s (OnChar i BACKSPACE_CHAR s) = [Call i (M_OnChar BACKSPACE_CHAR)]"
    using assms by (simp add: since_def trace_OnChar)
qed

theorem C4_textbox_edits_witness:
  "cls (controls (OnChar 0 97 (OnChar 0 98 ui)) ! 0) = TextBox [98, 97]
   \<and> since (OnChar 0 98 ui) (OnChar 0 97 (OnChar 0 98 ui)) = [Call 0 (M_OnChar 97), Fire_changeEvent 0]
   \<and> cls (controls (OnKeyDown 0 VK_BACK (OnChar 0 98 ui)) ! 0) = TextBox []
   \<and> controls (OnKeyDown 0 VK_BACK ui) = controls ui
   \<and> since ui (OnKeyDown 0 VK_BACK ui) = [Call 0 (M_OnKeyDown VK_BACK)]
   \<and> controls (OnChar 0 8 ui) = controls ui"
proof -
  have u: "0 < length (controls ui)" "cls (controls ui ! 0) = TextBox []"
    by (simp_all add: ui_controls)
  have b: "(98 :: wchar) \<noteq> BACKSPACE_CHAR" "(97 :: wchar) \<noteq> BACKSPACE_CHAR"
    by (simp_all add: BACKSPACE_CHAR_def)
  note a = C4_textbox_edits [OF u, of 98]
  have v: "0 < length (controls (OnChar 0 98 ui))" "cls (controls (OnChar 0 98 ui) ! 0) = TextBox [98]"
    using a b u by (simp_all add: OnChar_def TextBox_OnChar_def Let_def)
  note c = C4_textbox_edits [OF v, of 97]
  show ?thesis using a b c by (simp add: BACKSPACE_CHAR_def)
qed

subsection \<open>Keyboard routing\<close>

text \<open>
  C5. A character or key-down message is handed to the first focused control in insertion
  order, and its hook is the only hook called; when no control is focused the message
  leaves the state, trace included, as it is.
\<close>

theorem C5_keyboard_first_focused:
  "(i < length (controls s) \<and> IsFocused (controls s ! i)
      \<and> (\<forall>j<i. \<not> IsFocused (controls s ! j)) \<longrightarrow>
        ControlContainer_OnChar ch s = OnChar i (ucast ch) s
      \<and> ControlContainer_OnKeyDown key s = OnKeyDown i (ucast key) s
      \<and> hook_calls (since s (ControlContainer_OnChar ch s)) = [Call i (M_OnChar (ucast ch))]
      \<and> hook_calls (since s (ControlContainer_OnKeyDown key s)) = [Call i (M_OnKeyDown (ucast key))])
   \<and> ((\<forall>j<length (controls s). \<not> IsFocused (controls s ! j)) \<longrightarrow>
        ControlContainer_OnChar ch s = s \<and> ControlContainer_OnKeyDown key s = s)"
proof (intro conjI impI)
  assume a: "i < length (controls s) \<and> IsFocused (controls s ! i)
      \<and> (\<forall>j<i. \<not> IsFocused (controls s ! j))"
  then have f: "find (\<lambda>i. IsFocused (controls s ! i)) [0..<length (controls s)] = Some i"
    by (intro find_first_index) simp_all
  show c: "ControlContainer_OnChar ch s = OnChar i (ucast ch) s"
    by (simp add: ControlContainer_OnChar_def OnChar_loop_find f)
  show k: "ControlContainer_OnKeyDown key s = OnKeyDown i (ucast key) s"
    by (simp add: ControlContainer_OnKeyDown_def OnKeyDown_loop_find f)
  show "hook_calls (since s (ControlContainer_OnChar ch s)) = [Call i (M_OnChar (ucast ch))]"
    by (simp only: c hook_calls_OnChar)
  show "hook_calls (since s (ControlContainer_OnKeyDown key s)) = [Call i (M_OnKeyDown (ucast key))]"
    by (simp only: k hook_calls_OnKeyDown)
next
  assume "\<forall>j<length (controls s). \<not> IsFocused (controls s ! j)"
  then have f: "find (\<lambda>i. IsFocused (controls s ! i)) [0..<length (controls s)] = None"
    by (intro find_no_index)
  show "ControlContainer_OnChar ch s = s"
    by (simp add: ControlContainer_OnChar_def OnChar_loop_find f)
  show "ControlContainer_OnKeyDown key s = s"
    by (simp add: ControlContainer_OnKeyDown_def OnKeyDown_loop_find f)
qed

theorem C5_keyboard_first_focused_witness:
  "controls (ControlContainer_OnChar 97 focused_textbox) =
     [(Control_ctor (TextBox [97]) (RectF 20 20 150 50))\<lparr>onClick := True, onFocus := True\<rparr>]
   \<and> hook_calls (since focused_textbox (ControlContainer_OnChar 97 focused_textbox))
       = [Call 0 (M_OnChar 97)]
   \<and> hook_calls (since focused_textbox (ControlContainer_OnKeyDown 8 focused_textbox))
       = [Call 0 (M_OnKeyDown 8)]
   \<and> ControlContainer_OnChar 97 lone_textbox = lone_textbox
   \<and> ControlContainer_OnKeyDown 8 lone_textbox = lone_textbox
   \<and> ControlContainer_OnChar 97 ControlContainer_init = ControlContainer_init"
proof -
  have e: "\<forall>j<length (controls ControlContainer_init).
      \<not> IsFocused (controls ControlContainer_init ! j)"
    by (simp add: ControlContainer_init_def)
  have a: "0 < length (controls focused_textbox) \<and> IsFocused (controls focused_textbox ! 0)
      \<and> (\<forall>j<0. \<not> IsFocused (controls focused_textbox ! j))"
    by (simp add: focused_textbox_eq Control_ctor_def IsFocused_def)
  have b: "\<forall>j<length (controls lone_textbox). \<not> IsFocused (controls lone_textbox ! j)"
    by (simp add: lone_textbox_eq Control_ctor_def IsFocused_def)
  have c: "controls (OnChar 0 97 focused_textbox) =
     [(Control_ctor (TextBox [97]) (RectF 20 20 150 50))\<lparr>onClick := True, onFocus := True\<rparr>]"
    by (simp add: focused_textbox_eq Control_ctor_def eval_defs)
  show ?thesis
    using a c C5_keyboard_first_focused [where s = focused_textbox and i = 0 and ch = 97 and key = 8]
      b C5_keyboard_first_focused [where s = lone_textbox and ch = 97 and key = 8]
      e C5_keyboard_first_focused [where s = ControlContainer_init and ch = 97]
    by auto
qed

subsection \<open>Pointer-up completes a click\<close>

text \<open>
  C6. A pointer-up calls \<open>LeaveClick\<close> on exactly the pressed controls, in order, each of
  which fires its click callback once, and afterwards no control is pressed. After a
  pointer-down inside a control's bounds and a pointer-up, that control is not pressed and
  its click callback has fired once. After a pointer-down outside every control's bounds
  and a pointer-up, no click callback has fired, provided no control was pressed before
  the pointer-down.
\<close>

theorem C6_pointer_up_completes_click:
  "since s (ControlContainer_LeaveClick s) = concat (map (\<lambda>i.
       if IsClicked (controls s ! i) then [Call i M_LeaveClick, Fire_clickEvent i] else [])
       [0..<length (controls s)])
   \<and> count_list (since s (ControlContainer_LeaveClick s)) (Fire_clickEvent j)
       = (if j < length (controls s) \<and> IsClicked (controls s ! j) then 1 else 0)
   \<and> map IsClicked (controls (ControlContainer_LeaveClick s))
       = replicate (length (controls s)) False
   \<and> (j < length (controls s) \<and> PointInRectangle (Area (controls s ! j)) (Point2U px py) \<longrightarrow>
        \<not> IsClicked (controls (ControlContainer_LeaveClick (ControlContainer_OnClick px py s)) ! j)
      \<and> count_list (since s (ControlContainer_LeaveClick (ControlContainer_OnClick px py s)))
          (Fire_clickEvent j) = 1)
   \<and> ((\<forall>c\<in>set (controls s). \<not> IsClicked c \<and> \<not> PointInRectangle (Area c) (Point2U px py)) \<longrightarrow>
        (\<forall>k. count_list (since s (ControlContainer_LeaveClick (ControlContainer_OnClick px py s)))
          (Fire_clickEvent k) = 0))"
proof (intro conjI impI allI)
  let ?down = "ControlContainer_OnClick px py s"
  let ?up = "ControlContainer_LeaveClick ?down"
  have isc: "IsClicked = onClick" by (rule ext) (simp add: IsClicked_def)
  show "since s (ControlContainer_LeaveClick s) = concat (map (\<lambda>i.
       if IsClicked (controls s ! i) then [Call i M_LeaveClick, Fire_clickEvent i] else [])
       [0..<length (controls s)])"
    by (simp add: since_def ControlContainer_LeaveClick_trace isc)
  show "count_list (since s (ControlContainer_LeaveClick s)) (Fire_clickEvent j)
       = (if j < length (controls s) \<and> IsClicked (controls s ! j) then 1 else 0)"
    by (simp only: count_since_LeaveClick isc)
  show rel: "map IsClicked (controls (ControlContainer_LeaveClick s'))
       = replicate (length (controls s')) False" for s'
    by (simp only: isc ControlContainer_LeaveClick_released)
  have len: "length (controls ?down) = length (controls s)"
    by (simp add: ControlContainer_OnClick_closed)
  {
    assume a: "j < length (controls s) \<and> PointInRectangle (Area (controls s ! j)) (Point2U px py)"
    have "map IsClicked (controls ?up) ! j = replicate (length (controls ?down)) False ! j"
      by (simp only: rel)
    moreover have "j < length (controls ?up)"
      using a len by (simp add: ControlContainer_LeaveClick_def)
    ultimately show "\<not> IsClicked (controls ?up ! j)"
      using a len by simp
    have pressed: "onClick (controls ?down ! j)"
      using a by (simp add: ControlContainer_OnClick_closed Area_def)
    have "count_list (since s ?up) (Fire_clickEvent j)
        = count_list (since s ?down) (Fire_clickEvent j)
          + count_list (since ?down ?up) (Fire_clickEvent j)"
      by (simp only: since_click_release count_list_append)
    also have "\<dots> = 1"
      using a pressed len by (simp only: no_fire_in_OnClick count_since_LeaveClick) simp
    finally show "count_list (since s ?up) (Fire_clickEvent j) = 1" .
  }
  {
    fix k
    assume b: "\<forall>c\<in>set (controls s). \<not> IsClicked c \<and> \<not> PointInRectangle (Area c) (Point2U px py)"
    have idle: "\<not> onClick (controls ?down ! k)" if "k < length (controls s)"
      using b that by (simp add: ControlContainer_OnClick_closed Area_def IsClicked_def)
    have "count_list (since s ?up) (Fire_clickEvent k)
        = count_list (since s ?down) (Fire_clickEvent k)
          + count_list (since ?down ?up) (Fire_clickEvent k)"
      by (simp only: since_click_release count_list_append)
    also have "\<dots> = 0"
      using idle len by (simp only: no_fire_in_OnClick count_since_LeaveClick) simp
    finally show "count_list (since s ?up) (Fire_clickEvent k) = 0" .
  }
qed

theorem C6_pointer_up_completes_click_witness:
  "\<not> IsClicked (controls (ControlContainer_LeaveClick (ControlContainer_OnClick 5 5 pressed_button)) ! 0)
   \<and> count_list (since pressed_button
        (ControlContainer_LeaveClick (ControlContainer_OnClick 5 5 pressed_button)))
        (Fire_clickEvent 0) = 1
   \<and> count_list (since one_button
        (ControlContainer_LeaveClick (ControlContainer_OnClick 100 100 one_button)))
        (Fire_clickEvent 0) = 0"
proof -
  have a: "0 < length (controls pressed_button)
      \<and> PointInRectangle (Area (controls pressed_button ! 0)) (Point2U 5 5)"
    by (simp add: pressed_button_eq Control_ctor_def Area_def
        PointInRectangle_def RectF_def Point2U_def uint_to_float_exact)
  have b: "\<forall>c\<in>set (controls one_button).
      \<not> IsClicked c \<and> \<not> PointInRectangle (Area c) (Point2U 100 100)"
    by (simp add: one_button_eq Control_ctor_def Area_def IsClicked_def
        PointInRectangle_def RectF_def Point2U_def uint_to_float_exact)
  show ?thesis
    using a C6_pointer_up_completes_click [where s = pressed_button and j = 0 and px = 5 and py = 5]
      b C6_pointer_up_completes_click [where s = one_button and px = 100 and py = 100]
    by simp
qed

text \<open>
  C6, without the condition that no control is pressed beforehand, fails: a button pressed
  by an earlier pointer-down fires its click callback on the pointer-up that follows a
  pointer-down outside its bounds.
\<close>

theorem C6_stale_press_counterexample:
  "\<not> PointInRectangle (Area (controls pressed_button ! 0)) (Point2U 100 100)
   \<and> length (controls pressed_button) = 1
   \<and> count_list (since pressed_button
        (ControlContainer_LeaveClick (ControlContainer_OnClick 100 100 pressed_button)))
        (Fire_clickEvent 0) = 1"
  by (simp add: pressed_button_eq Control_ctor_def since_def ControlContainer_OnClick_closed
      ControlContainer_LeaveClick_def LeaveClick_body_def Control_LeaveClick_def
      IsClicked_def invoke_def Let_def Area_def
      PointInRectangle_def RectF_def Point2U_def uint_to_float_exact)

subsection \<open>Hover follows the pointer\<close>

text \<open>
  C7. After a pointer-move, every control's hover flag equals the hit test of the point
  against its bounds. The hooks called are, for each control in order, \<open>OnHover\<close> when the
  flag turns from false to true, \<open>LeaveHover\<close> when it turns from true to false, and none
  when it keeps its value. Every control is visited: two buttons with the same bounds are
  both hovered.
\<close>

theorem C7_hover_tracks_hit_test:
  "controls (ControlContainer_OnHover px py s) =
     map (\<lambda>c. c\<lparr>onHover := PointInRectangle (Area c) (Point2U px py)\<rparr>) (controls s)
   \<and> map IsHover (controls (ControlContainer_OnHover px py s)) =
     map (\<lambda>c. PointInRectangle (Area c) (Point2U px py)) (controls s)
   \<and> since s (ControlContainer_OnHover px py s) =
     concat (map (\<lambda>i.
        if PointInRectangle (Area (controls s ! i)) (Point2U px py)
        then (if IsHover (controls s ! i) then [] else [Call i (M_OnHover (Point2U px py))])
        else (if IsHover (controls s ! i) then [Call i M_LeaveHover] else []))
        [0..<length (controls s)])
   \<and> map IsHover (controls (ControlContainer_OnHover 5 5 overlapping_buttons)) = [True, True]"
proof (intro conjI)
  show "controls (ControlContainer_OnHover px py s) =
     map (\<lambda>c. c\<lparr>onHover := PointInRectangle (Area c) (Point2U px py)\<rparr>) (controls s)"
    by (simp add: ControlContainer_OnHover_closed Area_def)
  show "map IsHover (controls (ControlContainer_OnHover px py s)) =
     map (\<lambda>c. PointInRectangle (Area c) (Point2U px py)) (controls s)"
    by (simp add: ControlContainer_OnHover_closed Area_def IsHover_def comp_def)
  show "since s (ControlContainer_OnHover px py s) =
     concat (map (\<lambda>i.
        if PointInRectangle (Area (controls s ! i)) (Point2U px py)
        then (if IsHover (controls s ! i) then [] else [Call i (M_OnHover (Point2U px py))])
        else (if IsHover (controls s ! i) then [Call i M_LeaveHover] else []))
        [0..<length (controls s)])"
    by (simp add: ControlContainer_OnHover_closed since_def Area_def IsHover_def cong: if_cong)
  show "map IsHover (controls (ControlContainer_OnHover 5 5 overlapping_buttons)) = [True, True]"
    by (simp add: ControlContainer_OnHover_closed IsHover_def comp_def
      overlapping_buttons_def new_Button_def Add_def Control_ctor_def ControlContainer_init_def
      PointInRectangle_def Point2U_def RectF_def uint_to_float_exact)
qed

subsection \<open>Paint order\<close>

text \<open>
  C8. A repaint paints every registered control once, in the order of registration,
  whatever the flags of the controls, and changes no control.
\<close>

theorem C8_paint_order:
  "controls (fold Add cs ControlContainer_init) = cs
   \<and> controls (ControlContainer_Paint s) = controls s
   \<and> painted (trace (ControlContainer_Paint s)) = painted (trace s) @ [0..<length (controls s)]
   \<and> painted (since ControlContainer_init
        (ControlContainer_Paint (fold Add cs ControlContainer_init))) = [0..<length cs]"
proof -
  have a: "controls (fold Add cs ControlContainer_init) = cs"
    by (simp add: controls_fold_Add ControlContainer_init_def)
  have t: "trace (fold Add cs s') = trace s'" for s'
    by (induction cs arbitrary: s') (simp_all add: Add_def)
  have b: "painted (trace (ControlContainer_Paint s')) = painted (trace s') @ [0..<length (controls s')]" for s'
    by (simp add: ControlContainer_Paint_closed painted_append painted_concat)
  have c: "controls (ControlContainer_Paint s) = controls s"
    by (simp add: ControlContainer_Paint_closed)
  have d: "since ControlContainer_init (ControlContainer_Paint (fold Add cs ControlContainer_init))
      = trace (ControlContainer_Paint (fold Add cs ControlContainer_init))"
    by (simp add: since_def ControlContainer_init_def)
  have e: "painted (trace (fold Add cs ControlContainer_init)) = []"
    by (simp add: t ControlContainer_init_def painted_def)
  show ?thesis using a c b [of s] b [of "fold Add cs ControlContainer_init"] d e by simp
qed

subsection \<open>Callbacks of a new control\<close>

text \<open>
  C9. A constructed control of any class has the empty lambda as click and change
  callback, and invoking the empty lambda changes nothing. So a pointer-up on a pressed
  control with no registered callback only clears the pressed flag, and an edit of a text
  box with no registered callback only changes its text.
\<close>

theorem C9_default_callbacks_are_noops:
  "clickEvent (Control_ctor k a) = NoOp \<and> changeEvent (Control_ctor k a) = NoOp
   \<and> controls (new_Control a s) = controls s @ [Control_ctor Base a]
   \<and> controls (new_Label a str s) = controls s @ [Control_ctor (Label str) a]
   \<and> controls (new_TextBox a s) = controls s @ [Control_ctor (TextBox []) a]
   \<and> controls (new_Button a s) = controls s @ [Control_ctor Button a]
   \<and> invoke NoOp s = s
   \<and> (i < length (controls s) \<and> clickEvent (controls s ! i) = NoOp \<longrightarrow>
        Control_LeaveClick i s =
          \<lparr>controls = (controls s)[i := (controls s ! i)\<lparr>onClick := False\<rparr>],
           trace = trace s @ [Call i M_LeaveClick, Fire_clickEvent i]\<rparr>)
   \<and> (i < length (controls s) \<and> changeEvent (controls s ! i) = NoOp
        \<and> cls (controls s ! i) = TextBox str \<longrightarrow>
        controls (OnChar i ch s) =
          (if ch \<noteq> BACKSPACE_CHAR
           then (controls s)[i := (controls s ! i)\<lparr>cls := TextBox (str @ [ch])\<rparr>]
           else controls s)
      \<and> controls (OnKeyDown i key s) =
          (if key = VK_BACK \<and> str \<noteq> []
           then (controls s)[i := (controls s ! i)\<lparr>cls := TextBox (butlast str)\<rparr>]
           else controls s))"
proof (intro conjI impI)
  show "clickEvent (Control_ctor k a) = NoOp" "changeEvent (Control_ctor k a) = NoOp"
    by (simp_all add: Control_ctor_def)
  show "controls (new_Control a s) = controls s @ [Control_ctor Base a]"
    "controls (new_Label a str s) = controls s @ [Control_ctor (Label str) a]"
    "controls (new_TextBox a s) = controls s @ [Control_ctor (TextBox []) a]"
    "controls (new_Button a s) = controls s @ [Control_ctor Button a]"
    by (simp_all add: new_Control_def new_Label_def new_TextBox_def new_Button_def Add_def)
  show "invoke NoOp s = s" by (simp add: invoke_def)
next
  assume "i < length (controls s) \<and> clickEvent (controls s ! i) = NoOp"
  then show "Control_LeaveClick i s =
          \<lparr>controls = (controls s)[i := (controls s ! i)\<lparr>onClick := False\<rparr>],
           trace = trace s @ [Call i M_LeaveClick, Fire_clickEvent i]\<rparr>"
    by (intro container_eqI)
      (simp_all add: controls_Control_LeaveClick_inert inert_NoOp trace_Control_LeaveClick)
next
  assume a: "i < length (controls s) \<and> changeEvent (controls s ! i) = NoOp
        \<and> cls (controls s ! i) = TextBox str"
  then show "controls (OnChar i ch s) =
          (if ch \<noteq> BACKSPACE_CHAR
           then (controls s)[i := (controls s ! i)\<lparr>cls := TextBox (str @ [ch])\<rparr>]
           else controls s)"
    by (simp add: controls_OnChar_inert inert_NoOp)
  from a show "controls (OnKeyDown i key s) =
          (if key = VK_BACK \<and> str \<noteq> []
           then (controls s)[i := (controls s ! i)\<lparr>cls := TextBox (butlast str)\<rparr>]
           else controls s)"
    by (simp add: controls_OnKeyDown_inert inert_NoOp)
qed

theorem C9_default_callbacks_are_noops_witness:
  "Control_LeaveClick 0 pressed_button =
     \<lparr>controls = [(Control_ctor Button (RectF 0 0 10 10))\<lparr>onFocus := True\<rparr>],
      trace = [Call 0 (M_OnClick (Point2U 5 5)), Call 0 M_OnFocus,
               Call 0 M_LeaveClick, Fire_clickEvent 0]\<rparr>
   \<and> controls (OnChar 0 97 lone_textbox) = [(Control_ctor (TextBox [97]) (RectF 20 20 150 50))]
   \<and> controls (OnKeyDown 0 VK_BACK lone_textbox) = controls lone_textbox"
proof -
  have p: "0 < length (controls pressed_button) \<and> clickEvent (controls pressed_button ! 0) = NoOp"
    by (simp add: pressed_button_eq Control_ctor_def)
  have q: "0 < length (controls lone_textbox) \<and> changeEvent (controls lone_textbox ! 0) = NoOp
        \<and> cls (controls lone_textbox ! 0) = TextBox []"
    by (simp add: lone_textbox_eq Control_ctor_def)
  show ?thesis
    using p q
      C9_default_callbacks_are_noops [where s = pressed_button and i = 0]
      C9_default_callbacks_are_noops [where s = lone_textbox and i = 0 and str = "[]"
        and ch = 97 and key = VK_BACK]
    by (simp add: pressed_button_eq lone_textbox_eq Control_ctor_def BACKSPACE_CHAR_def)
qed

subsection \<open>Frame conditions\<close>

text \<open>
  C10. Character and key-down dispatch leave the bounds and the three flags of every
  control unchanged; when no change callback mutates a control, the only control they can
  change is the first focused one, which is then a text box that differs in its text only.
  Pointer-move and pointer-down dispatch leave class and text of every control
  unchanged, and so does pointer-up when no click callback mutates a control.
\<close>

theorem C10_frame_conditions:
  "map flags (controls (ControlContainer_OnChar ch s)) = map flags (controls s)
   \<and> map flags (controls (ControlContainer_OnKeyDown key s)) = map flags (controls s)
   \<and> ((\<forall>c\<in>set (controls s). inert (changeEvent c)) \<longrightarrow>
        (\<forall>j. controls (ControlContainer_OnChar ch s) ! j \<noteq> controls s ! j \<longrightarrow>
           j < length (controls s) \<and> IsFocused (controls s ! j)
           \<and> (\<forall>k<j. \<not> IsFocused (controls s ! k))
           \<and> (\<exists>t t'. cls (controls s ! j) = TextBox t
                \<and> controls (ControlContainer_OnChar ch s) ! j = (controls s ! j)\<lparr>cls := TextBox t'\<rparr>))
      \<and> (\<forall>j. controls (ControlContainer_OnKeyDown key s) ! j \<noteq> controls s ! j \<longrightarrow>
           j < length (controls s) \<and> IsFocused (controls s ! j)
           \<and> (\<forall>k<j. \<not> IsFocused (controls s ! k))
           \<and> (\<exists>t t'. cls (controls s ! j) = TextBox t
                \<and> controls (ControlContainer_OnKeyDown key s) ! j = (controls s ! j)\<lparr>cls := TextBox t'\<rparr>)))
   \<and> map cls (controls (ControlContainer_OnHover px py s)) = map cls (controls s)
   \<and> map cls (controls (ControlContainer_OnClick px py s)) = map cls (controls s)
   \<and> ((\<forall>c\<in>set (controls s). inert (clickEvent c)) \<longrightarrow>
        map cls (controls (ControlContainer_LeaveClick s)) = map cls (controls s))"
proof (intro conjI)
  show "map flags (controls (ControlContainer_OnChar ch s)) = map flags (controls s)"
    by (rule map_ControlContainer_OnChar) (rule flags_cls)
  show "map flags (controls (ControlContainer_OnKeyDown key s)) = map flags (controls s)"
    by (rule map_ControlContainer_OnKeyDown) (rule flags_cls)
  show "map cls (controls (ControlContainer_OnHover px py s)) = map cls (controls s)"
    by (simp add: map_ControlContainer_OnHover)
  show "map cls (controls (ControlContainer_OnClick px py s)) = map cls (controls s)"
    by (simp add: map_ControlContainer_OnClick)
  show "(\<forall>c\<in>set (controls s). inert (clickEvent c)) \<longrightarrow>
        map cls (controls (ControlContainer_LeaveClick s)) = map cls (controls s)"
    by (simp add: cls_ControlContainer_LeaveClick_inert)
  let ?n = "length (controls s)"
  have char: "j < ?n \<and> IsFocused (controls s ! j)
           \<and> (\<forall>k<j. \<not> IsFocused (controls s ! k))
           \<and> (\<exists>t t'. cls (controls s ! j) = TextBox t
                \<and> controls (ControlContainer_OnChar ch s) ! j = (controls s ! j)\<lparr>cls := TextBox t'\<rparr>)"
    if inert: "\<forall>c\<in>set (controls s). inert (changeEvent c)"
      and j: "controls (ControlContainer_OnChar ch s) ! j \<noteq> controls s ! j" for j
  proof -
    from j obtain i where f: "find (\<lambda>i. IsFocused (controls s ! i)) [0..<?n] = Some i"
      by (cases "find (\<lambda>i. IsFocused (controls s ! i)) [0..<?n]")
        (auto simp: ControlContainer_OnChar_def OnChar_loop_find)
    then have eq: "ControlContainer_OnChar ch s = OnChar i (ucast ch) s"
      by (simp add: ControlContainer_OnChar_def OnChar_loop_find)
    from f have i: "i < ?n \<and> IsFocused (controls s ! i) \<and> (\<forall>k<i. \<not> IsFocused (controls s ! k))"
      by (rule first_focused)
    with inert have "inert (changeEvent (controls s ! i))" by simp
    with i j eq have "j = i \<and> (\<exists>t t'. cls (controls s ! j) = TextBox t
        \<and> controls (OnChar i (ucast ch) s) ! j = (controls s ! j)\<lparr>cls := TextBox t'\<rparr>)"
      by (intro only_focused_textbox_OnChar) simp_all
    with i eq show ?thesis by auto
  qed
  have keydown: "j < ?n \<and> IsFocused (controls s ! j)
           \<and> (\<forall>k<j. \<not> IsFocused (controls s ! k))
           \<and> (\<exists>t t'. cls (controls s ! j) = TextBox t
                \<and> controls (ControlContainer_OnKeyDown key s) ! j = (controls s ! j)\<lparr>cls := TextBox t'\<rparr>)"
    if inert: "\<forall>c\<in>set (controls s). inert (changeEvent c)"
      and j: "controls (ControlContainer_OnKeyDown key s) ! j \<noteq> controls s ! j" for j
  proof -
    from j obtain i where f: "find (\<lambda>i. IsFocused (controls s ! i)) [0..<?n] = Some i"
      by (cases "find (\<lambda>i. IsFocused (controls s ! i)) [0..<?n]")
        (auto simp: ControlContainer_OnKeyDown_def OnKeyDown_loop_find)
    then have eq: "ControlContainer_OnKeyDown key s = OnKeyDown i (ucast key) s"
      by (simp add: ControlContainer_OnKeyDown_def OnKeyDown_loop_find)
    from f have i: "i < ?n \<and> IsFocused (controls s ! i) \<and> (\<forall>k<i. \<not> IsFocused (controls s ! k))"
      by (rule first_focused)
    with inert have "inert (changeEvent (controls s ! i))" by simp
    with i j eq have "j = i \<and> (\<exists>t t'. cls (controls s ! j) = TextBox t
        \<and> controls (OnKeyDown i (ucast key) s) ! j = (controls s ! j)\<lparr>cls := TextBox t'\<rparr>)"
      by (intro only_focused_textbox_OnKeyDown) simp_all
    with i eq show ?thesis by auto
  qed
  show "(\<forall>c\<in>set (controls s). inert (changeEvent c)) \<longrightarrow>
        (\<forall>j. controls (ControlContainer_OnChar ch s) ! j \<noteq> controls s ! j \<longrightarrow>
           j < length (controls s) \<and> IsFocused (controls s ! j)
           \<and> (\<forall>k<j. \<not> IsFocused (controls s ! k))
           \<and> (\<exists>t t'. cls (controls s ! j) = TextBox t
                \<and> controls (ControlContainer_OnChar ch s) ! j = (controls s ! j)\<lparr>cls := TextBox t'\<rparr>))
      \<and> (\<forall>j. controls (ControlContainer_OnKeyDown key s) ! j \<noteq> controls s ! j \<longrightarrow>
           j < length (controls s) \<and> IsFocused (controls s ! j)
           \<and> (\<forall>k<j. \<not> IsFocused (controls s ! k))
           \<and> (\<exists>t t'. cls (controls s ! j) = TextBox t
                \<and> controls (ControlContainer_OnKeyDown key s) ! j = (controls s ! j)\<lparr>cls := TextBox t'\<rparr>))"
    using char keydown by blast
qed

theorem C10_frame_conditions_witness:
  "controls (ControlContainer_OnChar 97 focused_textbox) ! 0 \<noteq> controls focused_textbox ! 0
   \<and> IsFocused (controls focused_textbox ! 0)
   \<and> map flags (controls (ControlContainer_OnChar 97 focused_textbox))
       = [(RectF 20 20 150 50, False, True, True)]
   \<and> map cls (controls (ControlContainer_LeaveClick pressed_button)) = [Button]"
proof -
  have a: "\<forall>c\<in>set (controls focused_textbox). inert (changeEvent c)"
    by (simp add: focused_textbox_eq Control_ctor_def inert_NoOp)
  have b: "\<forall>c\<in>set (controls pressed_button). inert (clickEvent c)"
    by (simp add: pressed_button_eq Control_ctor_def inert_NoOp)
  have c: "controls (ControlContainer_OnChar 97 focused_textbox) ! 0 \<noteq> controls focused_textbox ! 0"
    by (simp add: focused_textbox_typed) (simp add: focused_textbox_eq Control_ctor_def)
  show ?thesis
    using a c C10_frame_conditions [where s = focused_textbox and ch = 97]
      b C10_frame_conditions [where s = pressed_button]
    by (simp add: focused_textbox_eq pressed_button_eq Control_ctor_def flags_def Area_def
        IsHover_def IsClicked_def IsFocused_def)
qed

end
